theory Spec2Isabelle
  imports Complex_Main "HOL-Library.Extended_Nat" "HOL-Library.Multiset" "HOL-Library.Word"
begin

section \<open>gh-viewer: the aggregation and normalisation layer of \<^verbatim>\<open>viewer.ts\<close>\<close>

text \<open>
  The development embeds \<^verbatim>\<open>createViewer\<close> and its helper functions. Conventions:
  \<^item> a JavaScript string is a \<^typ>\<open>string\<close>: a list of code units, restricted to the
    units \<open>0..255\<close>; a string is truthy when it is not empty;
  \<^item> an optional property (\<^verbatim>\<open>x?: T\<close>, \<^verbatim>\<open>T | null\<close>) is a \<^typ>\<open>'a option\<close>, with
    \<open>None\<close> for \<^verbatim>\<open>undefined\<close> and \<^verbatim>\<open>null\<close>;
  \<^item> a thrown exception is a value of type \<open>error\<close>, on the left of a sum;
  \<^item> the closure state of a viewer (its caches) and the log of the requests handed to
    \<^verbatim>\<open>fetchImpl\<close> are threaded through every operation;
  \<^item> functions of the JavaScript runtime and of \<^verbatim>\<open>minimatch\<close> whose behaviour is not
    written in the repository (collation, case mapping, byte decoding, glob matching)
    are parameters, collected in the record \<open>runtime\<close>.
\<close>

subsection \<open>Strings\<close>

definition truthy :: "string \<Rightarrow> bool" where
  "truthy s = (s \<noteq> [])"

definition truthyOpt :: "string option \<Rightarrow> bool" where
  "truthyOpt so = (case so of None \<Rightarrow> False | Some s \<Rightarrow> truthy s)"

text \<open>White space and line terminators of ECMAScript among the code units below 256:
  TAB, LF, VT, FF, CR, SPACE and NBSP.\<close>

definition isWhiteSpace :: "char \<Rightarrow> bool" where
  "isWhiteSpace c = (of_char c \<in> {9, 10, 11, 12, 13, 32, 160 :: nat})"

definition trim :: "string \<Rightarrow> string" where
  "trim s = rev (dropWhile isWhiteSpace (rev (dropWhile isWhiteSpace s)))"

text \<open>\<^verbatim>\<open>s.split(sep)\<close> for a separator of one code unit: never empty, \<^verbatim>\<open>"".split(sep)\<close>
  is \<^verbatim>\<open>[""]\<close>.\<close>

fun split :: "char \<Rightarrow> string \<Rightarrow> string list" where
  "split sep [] = [[]]"
| "split sep (c # cs) =
     (if c = sep then [] # split sep cs
      else (case split sep cs of [] \<Rightarrow> [[c]] | l # ls \<Rightarrow> (c # l) # ls))"

text \<open>\<^verbatim>\<open>s.split(/\s+/)\<close>: the pieces between maximal runs of white space.\<close>

function splitWhiteSpace :: "string \<Rightarrow> string list" where
  "splitWhiteSpace [] = [[]]"
| "splitWhiteSpace (c # cs) =
     (if isWhiteSpace c then [] # splitWhiteSpace (dropWhile isWhiteSpace cs)
      else (case splitWhiteSpace cs of [] \<Rightarrow> [[c]] | l # ls \<Rightarrow> (c # l) # ls))"
  by pat_completeness auto
termination
  by (relation "measure length") (auto simp: le_imp_less_Suc length_dropWhile_le)

text \<open>\<^verbatim>\<open>parts.join(sep)\<close>.\<close>

fun join :: "string \<Rightarrow> string list \<Rightarrow> string" where
  "join sep [] = []"
| "join sep [x] = x"
| "join sep (x # y # ys) = x @ sep @ join sep (y # ys)"

text \<open>\<^verbatim>\<open>hay.includes(needle)\<close> and \<^verbatim>\<open>s.startsWith(p)\<close>.\<close>

fun startsWith :: "string \<Rightarrow> string \<Rightarrow> bool" where
  "startsWith s [] = True"
| "startsWith [] (p # ps) = False"
| "startsWith (c # cs) (p # ps) = (c = p \<and> startsWith cs ps)"

fun stringIncludes :: "string \<Rightarrow> string \<Rightarrow> bool" where
  "stringIncludes [] needle = (needle = [])"
| "stringIncludes (c # cs) needle = (startsWith (c # cs) needle \<or> stringIncludes cs needle)"

text \<open>\<^verbatim>\<open>text.replace(/\r\n/g, "\n")\<close>.\<close>

fun replaceCRLF :: "string \<Rightarrow> string" where
  "replaceCRLF (c # d # cs) =
     (if c = CHR 0x0D \<and> d = CHR 0x0A then CHR 0x0A # replaceCRLF cs
      else c # replaceCRLF (d # cs))"
| "replaceCRLF cs = cs"

text \<open>\<^verbatim>\<open>n.toString()\<close> for an integer \<open>n\<close>, and \<^verbatim>\<open>s.padStart(width, " ")\<close>.\<close>

fun digits :: "nat \<Rightarrow> string" where
  "digits n = (if n < 10 then [char_of (48 + n)] else digits (n div 10) @ [char_of (48 + n mod 10)])"

definition toString :: "int \<Rightarrow> string" where
  "toString n = (if n < 0 then CHR ''-'' # digits (nat (- n)) else digits (nat n))"

definition padStart :: "nat \<Rightarrow> string \<Rightarrow> string" where
  "padStart width s = replicate (width - length s) CHR '' '' @ s"

subsection \<open>Numbers and array slices\<close>

text \<open>A JavaScript number as the viewer's options carry it: the finite doubles are
  rationals, and \<^verbatim>\<open>Math.floor\<close>, comparison with zero and \<^verbatim>\<open>Math.min\<close> against an
  integer are exact on them.\<close>

datatype number = NaN | NegInfinity | PosInfinity | Finite rat

text \<open>\<^verbatim>\<open>normalizeLimit(limit, fallback, max)\<close>; \<open>None\<close> is \<^verbatim>\<open>typeof limit !== "number"\<close>.\<close>

fun normalizeLimit :: "number option \<Rightarrow> nat \<Rightarrow> nat \<Rightarrow> nat" where
  "normalizeLimit None fallback mx = fallback"
| "normalizeLimit (Some NaN) fallback mx = fallback"
| "normalizeLimit (Some NegInfinity) fallback mx = fallback"
| "normalizeLimit (Some PosInfinity) fallback mx = mx"
| "normalizeLimit (Some (Finite q)) fallback mx =
     (if q \<le> 0 then fallback else min (nat \<lfloor>q\<rfloor>) mx)"

text \<open>\<^verbatim>\<open>normalizeOffset(offset)\<close>: a natural number, or \<open>\<infinity>\<close> for \<^verbatim>\<open>Infinity\<close>.\<close>

fun normalizeOffset :: "number option \<Rightarrow> enat" where
  "normalizeOffset None = 0"
| "normalizeOffset (Some NaN) = 0"
| "normalizeOffset (Some NegInfinity) = 0"
| "normalizeOffset (Some PosInfinity) = \<infinity>"
| "normalizeOffset (Some (Finite q)) = (if q \<le> 0 then 0 else enat (nat \<lfloor>q\<rfloor>))"

text \<open>\<^verbatim>\<open>xs.slice(from, to)\<close> for bounds that are non-negative integers or \<^verbatim>\<open>Infinity\<close>.\<close>

definition slice :: "'a list \<Rightarrow> enat \<Rightarrow> enat \<Rightarrow> 'a list" where
  "slice xs from to =
     (case from of
        \<infinity> \<Rightarrow> []
      | enat f \<Rightarrow> (case to of \<infinity> \<Rightarrow> drop f xs | enat t \<Rightarrow> take (t - f) (drop f xs)))"

text \<open>\<^verbatim>\<open>xs.slice(from, to)\<close> for integer bounds: a negative bound counts from the end.\<close>

definition relativeIndex :: "nat \<Rightarrow> int \<Rightarrow> nat" where
  "relativeIndex len k = (if k < 0 then nat (max 0 (int len + k)) else min (nat k) len)"

definition sliceInt :: "'a list \<Rightarrow> int \<Rightarrow> int \<Rightarrow> 'a list" where
  "sliceInt xs from to =
     (let f = relativeIndex (length xs) from; t = relativeIndex (length xs) to
      in take (t - f) (drop f xs))"

subsection \<open>Code-search snippets\<close>

record CodeSearchSnippet =
  startLine :: int
  endLine :: int
  snippetLines :: "string list"

text \<open>\<^verbatim>\<open>createSnippetsFromLines(fileLines, indices, context = 2)\<close>: the loop pushes one
  snippet per index, in order; \<open>acc\<close> is the array \<^verbatim>\<open>snippets\<close>.\<close>

fun pushSnippets :: "string list \<Rightarrow> int \<Rightarrow> int list \<Rightarrow> CodeSearchSnippet list \<Rightarrow> CodeSearchSnippet list" where
  "pushSnippets fileLines ctx [] acc = acc"
| "pushSnippets fileLines ctx (index # rest) acc =
     (let start = max 0 (index - ctx);
          endExclusive = min (int (length fileLines)) (index + ctx + 1)
      in pushSnippets fileLines ctx rest
           (acc @ [\<lparr>startLine = start + 1,
                    endLine = max (start + 1) endExclusive,
                    snippetLines = sliceInt fileLines start endExclusive\<rparr>]))"

definition createSnippetsFromLines :: "string list \<Rightarrow> int list \<Rightarrow> int option \<Rightarrow> CodeSearchSnippet list" where
  "createSnippetsFromLines fileLines indices context =
     (let ctx = (case context of None \<Rightarrow> 2 | Some c \<Rightarrow> c)
      in if length indices = 0 then [] else pushSnippets fileLines ctx indices [])"

subsection \<open>Errors, the runtime, requests and the viewer's state\<close>

text \<open>The messages of \<^verbatim>\<open>ViewerError\<close>, one constructor per \<^verbatim>\<open>throw\<close> site; \<open>Other\<close> is any
  exception that is not a \<^verbatim>\<open>ViewerError\<close> (a rejected \<^verbatim>\<open>fetchImpl\<close>, a body that is not
  JSON, an unknown buffer encoding).\<close>

datatype ViewerError =
    RequestFailed
  | NotAFile string
  | FileTooLarge nat string
  | CacheFailed
  | EmptyPattern
  | BaseRequired
  | HeadRequired
  | NoBlobContent
  | NoTreeData string
  | NoDefaultBranch
  | InvalidSlug string

datatype error = Viewer ViewerError | Other

text \<open>Library functions the viewer calls: \<^verbatim>\<open>a.localeCompare(b)\<close>,
  \<^verbatim>\<open>a.localeCompare(b, undefined, {sensitivity: "accent"})\<close>, \<^verbatim>\<open>s.toLowerCase()\<close>,
  \<^verbatim>\<open>Buffer.from(content, encoding)\<close> (\<open>None\<close> when it throws),
  \<^verbatim>\<open>buffer.toString("utf8")\<close> and \<^verbatim>\<open>minimatch(path, pattern, {dot: true})\<close>.\<close>

record runtime =
  localeCompare :: "string \<Rightarrow> string \<Rightarrow> int"
  localeCompareAccent :: "string \<Rightarrow> string \<Rightarrow> int"
  toLowerCase :: "string \<Rightarrow> string"
  bufferFrom :: "string \<Rightarrow> string \<Rightarrow> 8 word list option"
  utf8ToString :: "8 word list \<Rightarrow> string"
  minimatch :: "string \<Rightarrow> string \<Rightarrow> bool"

record RepoTarget =
  rt_owner :: string
  rt_repo :: string

text \<open>The URL of a request, by endpoint and by the values the viewer puts into it
  (\<^verbatim>\<open>encodeURIComponent\<close> is injective and left out). \<open>LinkRequest\<close> is a URL taken from
  a \<^verbatim>\<open>Link\<close> header.\<close>

datatype request =
    OrgReposRequest string
  | UserReposRequest
  | LinkRequest string
  | SearchRepositoriesRequest string nat
  | ContentsRequest RepoTarget "string list" "string option"
  | RepositoryRequest RepoTarget
  | TreeRequest RepoTarget string
  | SearchCodeRequest string nat nat
  | SearchCommitsRequest string nat nat
  | CompareRequest RepoTarget string string
  | BlobRequest RepoTarget string

text \<open>What \<^verbatim>\<open>fetchImpl\<close> and \<^verbatim>\<open>response.json()\<close> give: an exception that is not a
  \<^verbatim>\<open>ViewerError\<close>, a response that is not \<^verbatim>\<open>ok\<close>, or the decoded body.\<close>

datatype 'a response = FetchRejected | NotOk | Body 'a

record TreeCacheEntry =
  cachedMatches :: "string list"
  cachedTruncated :: bool

record ViewerState =
  treeCache :: "string \<rightharpoonup> TreeCacheEntry"
  blobCache :: "string \<rightharpoonup> string list"
  repoDefaults :: "string \<rightharpoonup> string"
  requests :: "request list"

definition initialState :: ViewerState where
  "initialState = \<lparr>treeCache = Map.empty, blobCache = Map.empty, repoDefaults = Map.empty, requests = []\<rparr>"

text \<open>\<^verbatim>\<open>ghFetch(url)\<close> followed by \<^verbatim>\<open>response.json()\<close>. The endpoint \<open>f\<close> answers from the
  requests issued so far and the present one; the request is logged.\<close>

definition ghFetch :: "(request list \<Rightarrow> request \<Rightarrow> 'a response) \<Rightarrow> request \<Rightarrow> ViewerState \<Rightarrow> (error + 'a) \<times> ViewerState" where
  "ghFetch f req s =
     (let s' = s\<lparr>requests := requests s @ [req]\<rparr>
      in case f (requests s) req of
           FetchRejected \<Rightarrow> (Inl Other, s')
         | NotOk \<Rightarrow> (Inl (Viewer RequestFailed), s')
         | Body b \<Rightarrow> (Inr b, s'))"

subsection \<open>Payloads of the remote service\<close>

record GitHubRepoSummary =
  r_full_name :: "string option"
  r_name :: "string option"
  r_description :: "string option"
  r_language :: "string option"
  r_stargazers_count :: "int option"
  r_forks_count :: "int option"
  r_private :: "bool option"
  r_html_url :: "string option"
  r_default_branch :: "string option"
  r_topics :: "string list option"
  r_visibility :: "string option"
  r_owner_login :: "string option"
  r_score :: "rat option"

text \<open>A page of a repository listing: the JSON array and \<^verbatim>\<open>parseNextLink\<close> of its
  \<^verbatim>\<open>Link\<close> header.\<close>

record RepoPage =
  pageItems :: "GitHubRepoSummary list"
  nextLink :: "string option"

record GitHubContentEntry =
  c_type :: "string option"
  c_name :: "string option"
  c_path :: "string option"
  c_size :: "int option"
  c_target :: "string option"
  c_content :: "string option"
  c_encoding :: "string option"
  c_sha :: "string option"

record GitHubTreeEntry =
  t_path :: string
  t_type :: string

record GitHubTreeResponse =
  tree :: "GitHubTreeEntry list option"
  truncated :: "bool option"

record GitHubTextMatch =
  fragment :: "string option"
  matches :: "string option list option"

record GitHubCodeSearchItem =
  i_path :: string
  i_sha :: string
  i_html_url :: string
  i_score :: "rat option"
  i_repository_full_name :: string
  i_repository_name :: string
  i_repository_owner_login :: "string option"
  i_text_matches :: "GitHubTextMatch list option"

record GitHubBlobResponse =
  b_content :: "string option"
  b_encoding :: "string option"

record CommitStats =
  additions :: "int option"
  deletions :: "int option"
  total :: "int option"

record GitHubCommitSearchItem =
  k_sha :: string
  k_html_url :: string
  k_commit_message :: "string option"
  k_commit_author_name :: "string option"
  k_commit_author_email :: "string option"
  k_commit_author_date :: "string option"
  k_author_login :: "string option"
  k_stats :: "CommitStats option"

record GitHubCompareFile =
  f_sha :: "string option"
  f_filename :: string
  f_status :: string
  f_additions :: int
  f_deletions :: int
  f_changes :: int
  f_patch :: "string option"
  f_previous_filename :: "string option"

record GitHubCompareResponse =
  ahead_by :: "int option"
  behind_by :: "int option"
  total_commits :: "int option"
  commits :: "string list option"
  files :: "GitHubCompareFile list option"

text \<open>\<^verbatim>\<open>fetchImpl\<close>, one answer function per endpoint (the remote is taken to answer each
  endpoint with a body of that endpoint's shape), and the credential.\<close>

record remote =
  authToken :: "string option"
  fetchRepoPage :: "request list \<Rightarrow> request \<Rightarrow> RepoPage response"
  fetchRepoSearch :: "request list \<Rightarrow> request \<Rightarrow> GitHubRepoSummary list option response"
  fetchContents :: "request list \<Rightarrow> request \<Rightarrow> GitHubContentEntry response"
  fetchRepository :: "request list \<Rightarrow> request \<Rightarrow> string option response"
  fetchTreeBody :: "request list \<Rightarrow> request \<Rightarrow> GitHubTreeResponse response"
  fetchCodeSearch :: "request list \<Rightarrow> request \<Rightarrow> GitHubCodeSearchItem list option response"
  fetchCommitSearch :: "request list \<Rightarrow> request \<Rightarrow> GitHubCommitSearchItem list option response"
  fetchCompare :: "request list \<Rightarrow> request \<Rightarrow> GitHubCompareResponse response"
  fetchBlob :: "request list \<Rightarrow> request \<Rightarrow> GitHubBlobResponse response"

subsection \<open>Repository discovery and merge\<close>

record RepositorySummary =
  name :: string
  fullName :: string
  description :: "string option"
  language :: "string option"
  stars :: int
  forks :: int
  isPrivate :: bool
  htmlUrl :: string
  defaultBranch :: string
  topics :: "string list"
  visibility :: "string option"

text \<open>\<^verbatim>\<open>mapRepoSummary(repo)\<close>; \<open>None\<close> is \<^verbatim>\<open>null\<close>.\<close>

definition mapRepoSummary :: "GitHubRepoSummary \<Rightarrow> RepositorySummary option" where
  "mapRepoSummary repo =
     (let fullName = (case r_full_name repo of None \<Rightarrow> [] | Some n \<Rightarrow> n)
      in if \<not> truthy fullName then None
         else Some \<lparr>name = (case r_name repo of None \<Rightarrow> fullName | Some n \<Rightarrow> n),
                    fullName = fullName,
                    description = r_description repo,
                    language = r_language repo,
                    stars = (case r_stargazers_count repo of None \<Rightarrow> 0 | Some n \<Rightarrow> n),
                    forks = (case r_forks_count repo of None \<Rightarrow> 0 | Some n \<Rightarrow> n),
                    isPrivate = (case r_private repo of None \<Rightarrow> False | Some b \<Rightarrow> b),
                    htmlUrl = (case r_html_url repo of None \<Rightarrow> ''https://github.com/'' @ fullName | Some u \<Rightarrow> u),
                    defaultBranch = (case r_default_branch repo of None \<Rightarrow> ''main'' | Some b \<Rightarrow> b),
                    topics = (case r_topics repo of None \<Rightarrow> [] | Some ts \<Rightarrow> ts),
                    visibility = r_visibility repo\<rparr>)"

definition equalsIgnoreCase :: "runtime \<Rightarrow> string \<Rightarrow> string \<Rightarrow> bool" where
  "equalsIgnoreCase R a b = (localeCompareAccent R a b = 0)"

definition matchesPattern :: "runtime \<Rightarrow> string \<Rightarrow> string \<Rightarrow> bool" where
  "matchesPattern R val pat =
     (let terms = filter (\<lambda>term. length term > 0) (splitWhiteSpace (toLowerCase R pat))
      in if length terms = 0 then True
         else (let haystack = toLowerCase R val
               in list_all (\<lambda>term. stringIncludes haystack term) terms))"

text \<open>An entry of the map \<^verbatim>\<open>collected\<close>. The map is an association list in insertion
  order, as a JavaScript \<^verbatim>\<open>Map\<close> iterates; \<^verbatim>\<open>set\<close> on a key that is present keeps its
  position.\<close>

record Candidate =
  summary :: RepositorySummary
  priority :: nat
  candStars :: int
  candScore :: "rat option"

fun mapSet :: "'k \<Rightarrow> 'v \<Rightarrow> ('k \<times> 'v) list \<Rightarrow> ('k \<times> 'v) list" where
  "mapSet k v [] = [(k, v)]"
| "mapSet k v (e # m) = (if fst e = k then (k, v) # m else e # mapSet k v m)"

text \<open>The trimmed \<^verbatim>\<open>pattern\<close>, \<^verbatim>\<open>organization\<close> and \<^verbatim>\<open>language\<close> of a search.\<close>

record SearchFilters =
  patternFilter :: "string option"
  organizationFilter :: "string option"
  languageFilter :: "string option"

definition orEmpty :: "string option \<Rightarrow> string" where
  "orEmpty so = (case so of None \<Rightarrow> [] | Some s \<Rightarrow> s)"

text \<open>\<^verbatim>\<open>addRepository(repo, priority)\<close>, on the map \<^verbatim>\<open>collected\<close>.\<close>

definition addRepository :: "runtime \<Rightarrow> SearchFilters \<Rightarrow> GitHubRepoSummary \<Rightarrow> nat \<Rightarrow> (string \<times> Candidate) list \<Rightarrow> (string \<times> Candidate) list" where
  "addRepository R F repo prio collected =
     (case mapRepoSummary repo of
        None \<Rightarrow> collected
      | Some smry \<Rightarrow>
          if truthyOpt (organizationFilter F) \<and> truthyOpt (r_owner_login repo)
             \<and> \<not> equalsIgnoreCase R (orEmpty (r_owner_login repo)) (orEmpty (organizationFilter F))
          then collected
          else if truthyOpt (patternFilter F)
             \<and> \<not> matchesPattern R (fullName smry) (orEmpty (patternFilter F))
             \<and> \<not> matchesPattern R (name smry) (orEmpty (patternFilter F))
          then collected
          else if truthyOpt (languageFilter F) \<and> truthyOpt (language smry)
             \<and> \<not> equalsIgnoreCase R (orEmpty (language smry)) (orEmpty (languageFilter F))
          then collected
          else if truthyOpt (languageFilter F) \<and> \<not> truthyOpt (language smry) \<and> prio > 0
          then collected
          else (case map_of collected (fullName smry) of
                  None \<Rightarrow>
                    mapSet (fullName smry)
                      \<lparr>summary = smry, priority = prio, candStars = stars smry, candScore = r_score repo\<rparr>
                      collected
                | Some existing \<Rightarrow>
                    if priority existing > prio
                    then mapSet (fullName smry)
                      \<lparr>summary = smry, priority = prio, candStars = stars smry, candScore = r_score repo\<rparr>
                      collected
                    else collected))"

text \<open>The loop \<^verbatim>\<open>for (const repo of page)\<close> of the three collectors: add, and leave the
  loop when \<^verbatim>\<open>collected.size >= maxIntermediate\<close>. The flag tells whether it was left.\<close>

fun addPage :: "runtime \<Rightarrow> SearchFilters \<Rightarrow> enat \<Rightarrow> nat \<Rightarrow> GitHubRepoSummary list \<Rightarrow> (string \<times> Candidate) list \<Rightarrow> (string \<times> Candidate) list \<times> bool" where
  "addPage R F maxIntermediate prio [] collected = (collected, False)"
| "addPage R F maxIntermediate prio (repo # rest) collected =
     (let collected' = addRepository R F repo prio collected
      in if enat (length collected') \<ge> maxIntermediate then (collected', True)
         else addPage R F maxIntermediate prio rest collected')"

text \<open>The loop \<^verbatim>\<open>while (url)\<close> of \<^verbatim>\<open>collectOrgRepositories\<close> and of
  \<^verbatim>\<open>collectUserRepositories\<close>, from the request of the current page. It need not end: a
  remote may give a next link for ever.\<close>

partial_function (option) collectPages :: "runtime \<Rightarrow> remote \<Rightarrow> SearchFilters \<Rightarrow> enat \<Rightarrow> request \<Rightarrow> (string \<times> Candidate) list \<Rightarrow> ViewerState \<Rightarrow> ((error + unit) \<times> (string \<times> Candidate) list \<times> ViewerState) option" where
  "collectPages R W F maxIntermediate url collected s =
     (case ghFetch (fetchRepoPage W) url s of
        (fetched, s') \<Rightarrow>
          (case fetched of
             Inl e \<Rightarrow> Some (Inl e, collected, s')
           | Inr page \<Rightarrow>
               (case addPage R F maxIntermediate 0 (pageItems page) collected of
                  (collected', capped) \<Rightarrow>
                    if capped then Some (Inr (), collected', s')
                    else if truthyOpt (nextLink page)
                    then collectPages R W F maxIntermediate (LinkRequest (orEmpty (nextLink page))) collected' s'
                    else Some (Inr (), collected', s'))))"

declare collectPages.simps [code]

definition collectOrgRepositories :: "runtime \<Rightarrow> remote \<Rightarrow> SearchFilters \<Rightarrow> enat \<Rightarrow> string \<Rightarrow> (string \<times> Candidate) list \<Rightarrow> ViewerState \<Rightarrow> ((error + unit) \<times> (string \<times> Candidate) list \<times> ViewerState) option" where
  "collectOrgRepositories R W F maxIntermediate org collected s =
     collectPages R W F maxIntermediate (OrgReposRequest org) collected s"

definition collectUserRepositories :: "runtime \<Rightarrow> remote \<Rightarrow> SearchFilters \<Rightarrow> enat \<Rightarrow> (string \<times> Candidate) list \<Rightarrow> ViewerState \<Rightarrow> ((error + unit) \<times> (string \<times> Candidate) list \<times> ViewerState) option" where
  "collectUserRepositories R W F maxIntermediate collected s =
     (if \<not> truthyOpt (authToken W) then Some (Inr (), collected, s)
      else collectPages R W F maxIntermediate UserReposRequest collected s)"

text \<open>The query of \<^verbatim>\<open>collectSearchResults\<close> and its loop
  \<^verbatim>\<open>while (collected.size < maxIntermediate)\<close>, from page \<open>page\<close>.\<close>

definition searchQuery :: "SearchFilters \<Rightarrow> string" where
  "searchQuery F =
     (let q1 = (if truthyOpt (patternFilter F) \<and> length (orEmpty (patternFilter F)) > 0
                then [orEmpty (patternFilter F)] else []);
          q2 = (if truthyOpt (organizationFilter F)
                then q1 @ [''org:'' @ orEmpty (organizationFilter F)] else q1);
          q3 = (if truthyOpt (languageFilter F)
                then q2 @ [''language:'' @ orEmpty (languageFilter F)] else q2);
          q4 = (if length q3 = 0 then q3 @ [''stars:>0''] else q3);
          q5 = (if \<not> list_ex (\<lambda>entry. startsWith entry ''in:'') q4 then q4 @ [''in:name''] else q4)
      in join '' '' q5)"

partial_function (option) searchPages :: "runtime \<Rightarrow> remote \<Rightarrow> SearchFilters \<Rightarrow> enat \<Rightarrow> string \<Rightarrow> nat \<Rightarrow> (string \<times> Candidate) list \<Rightarrow> ViewerState \<Rightarrow> ((error + unit) \<times> (string \<times> Candidate) list \<times> ViewerState) option" where
  "searchPages R W F maxIntermediate query page collected s =
     (if enat (length collected) < maxIntermediate
      then (case ghFetch (fetchRepoSearch W) (SearchRepositoriesRequest query page) s of
              (fetched, s') \<Rightarrow>
                (case fetched of
                   Inl e \<Rightarrow> Some (Inl e, collected, s')
                 | Inr body \<Rightarrow>
                     (let items = (case body of None \<Rightarrow> [] | Some xs \<Rightarrow> xs)
                      in if length items = 0 then Some (Inr (), collected, s')
                         else (let collected' = fst (addPage R F maxIntermediate 1 items collected)
                               in if length items < 100 then Some (Inr (), collected', s')
                                  else searchPages R W F maxIntermediate query (page + 1) collected' s'))))
      else Some (Inr (), collected, s))"

declare searchPages.simps [code]

definition collectSearchResults :: "runtime \<Rightarrow> remote \<Rightarrow> SearchFilters \<Rightarrow> enat \<Rightarrow> (string \<times> Candidate) list \<Rightarrow> ViewerState \<Rightarrow> ((error + unit) \<times> (string \<times> Candidate) list \<times> ViewerState) option" where
  "collectSearchResults R W F maxIntermediate collected s =
     searchPages R W F maxIntermediate (searchQuery F) 1 collected s"

text \<open>The comparator handed to \<^verbatim>\<open>sort\<close>.\<close>

definition compareCandidates :: "runtime \<Rightarrow> Candidate \<Rightarrow> Candidate \<Rightarrow> rat" where
  "compareCandidates R a b =
     (if priority a \<noteq> priority b then of_nat (priority a) - of_nat (priority b)
      else if candStars b \<noteq> candStars a then of_int (candStars b) - of_int (candStars a)
      else (let aScore = (case candScore a of None \<Rightarrow> 0 | Some x \<Rightarrow> x);
                bScore = (case candScore b of None \<Rightarrow> 0 | Some x \<Rightarrow> x)
            in if bScore \<noteq> aScore then bScore - aScore
               else of_int (localeCompare R (fullName (summary a)) (fullName (summary b)))))"

text \<open>\<^verbatim>\<open>array.sort(cmp)\<close>: ECMAScript sorts stably, so for a consistent comparator the
  result is that of the stable insertion sort, which places an element before the first
  one it does not compare greater than.\<close>

fun insertBy :: "('a \<Rightarrow> 'a \<Rightarrow> rat) \<Rightarrow> 'a \<Rightarrow> 'a list \<Rightarrow> 'a list" where
  "insertBy cmp x [] = [x]"
| "insertBy cmp x (y # ys) = (if cmp x y \<le> 0 then x # y # ys else y # insertBy cmp x ys)"

definition sortBy :: "('a \<Rightarrow> 'a \<Rightarrow> rat) \<Rightarrow> 'a list \<Rightarrow> 'a list" where
  "sortBy cmp xs = foldr (insertBy cmp) xs []"

record RepositorySearchParams =
  sp_pattern :: "string option"
  sp_organization :: "string option"
  sp_language :: "string option"
  sp_limit :: "number option"
  sp_offset :: "number option"

definition searchFilters :: "RepositorySearchParams \<Rightarrow> SearchFilters" where
  "searchFilters params =
     \<lparr>patternFilter = map_option trim (sp_pattern params),
      organizationFilter = map_option trim (sp_organization params),
      languageFilter = map_option trim (sp_language params)\<rparr>"

text \<open>The first part of \<^verbatim>\<open>searchRepositories\<close>, up to the sort: the channels fill the map
  \<^verbatim>\<open>collected\<close>. A \<^verbatim>\<open>ViewerError\<close> of the user channel is swallowed and what was collected
  before it stays.\<close>

definition collectCandidates :: "runtime \<Rightarrow> remote \<Rightarrow> RepositorySearchParams \<Rightarrow> ViewerState \<Rightarrow> ((error + (string \<times> Candidate) list) \<times> ViewerState) option" where
  "collectCandidates R W params s =
     (let limit = normalizeLimit (sp_limit params) 30 100;
          offset = normalizeOffset (sp_offset params);
          toCollect = offset + enat limit;
          F = searchFilters params;
          maxIntermediate = toCollect + 100
      in case (if truthyOpt (organizationFilter F)
               then collectOrgRepositories R W F maxIntermediate (orEmpty (organizationFilter F)) [] s
               else (case collectUserRepositories R W F maxIntermediate [] s of
                       None \<Rightarrow> None
                     | Some (Inl (Viewer e), collected, s') \<Rightarrow> Some (Inr (), collected, s')
                     | Some r \<Rightarrow> Some r)) of
           None \<Rightarrow> None
         | Some (Inl e, collected, s') \<Rightarrow> Some (Inl e, s')
         | Some (Inr u, collected, s') \<Rightarrow>
             if enat (length collected) < toCollect
             then (case collectSearchResults R W F maxIntermediate collected s' of
                     None \<Rightarrow> None
                   | Some (Inl e, collected', s'') \<Rightarrow> Some (Inl e, s'')
                   | Some (Inr u', collected', s'') \<Rightarrow> Some (Inr collected', s''))
             else Some (Inr collected, s'))"

definition searchRepositories :: "runtime \<Rightarrow> remote \<Rightarrow> RepositorySearchParams \<Rightarrow> ViewerState \<Rightarrow> ((error + RepositorySummary list) \<times> ViewerState) option" where
  "searchRepositories R W params s =
     (let limit = normalizeLimit (sp_limit params) 30 100;
          offset = normalizeOffset (sp_offset params)
      in case collectCandidates R W params s of
           None \<Rightarrow> None
         | Some (Inl e, s') \<Rightarrow> Some (Inl e, s')
         | Some (Inr collected, s') \<Rightarrow>
             (let sorted = sortBy (compareCandidates R) (map snd collected)
              in Some (Inr (map summary (slice sorted offset (offset + enat limit))), s')))"

subsection \<open>Content access\<close>

text \<open>\<^verbatim>\<open>encodeContentPath(path)\<close>: the non-empty segments of the path.\<close>

definition encodeContentPath :: "string \<Rightarrow> string list" where
  "encodeContentPath path = filter (\<lambda>segment. length segment > 0) (split CHR ''/'' path)"

record ReadRange =
  rangeStart :: int
  rangeEnd :: int

record ReadOptions =
  readRef :: "string option"
  readRange :: "ReadRange option"
  includeLineNumbers :: bool

record ReadResult =
  readPath :: string
  readResultRef :: "string option"
  readResultRange :: "ReadRange option"
  lines :: "string list"

text \<open>The loop of \<^verbatim>\<open>extractRange(lines, range)\<close>, from \<^verbatim>\<open>lineNumber\<close> with the array
  \<^verbatim>\<open>slice\<close> built so far; \<^verbatim>\<open>lines[index] ?? ""\<close> is the empty string below index 0.\<close>

function extractLoop :: "string list \<Rightarrow> int \<Rightarrow> int \<Rightarrow> string list \<Rightarrow> string list" where
  "extractLoop fileLines lastLine lineNumber acc =
     (if lineNumber \<le> lastLine
      then (let index = lineNumber - 1
            in if index \<ge> int (length fileLines) then acc
               else extractLoop fileLines lastLine (lineNumber + 1)
                      (acc @ [if 0 \<le> index then fileLines ! nat index else []]))
      else acc)"
  by pat_completeness auto
termination
  by (relation "measure (\<lambda>(fileLines, lastLine, lineNumber, acc). nat (lastLine + 1 - lineNumber))") auto

declare extractLoop.simps [simp del]

definition extractRange :: "string list \<Rightarrow> ReadRange \<Rightarrow> string list" where
  "extractRange fileLines r = extractLoop fileLines (rangeEnd r) (rangeStart r) []"

text \<open>\<^verbatim>\<open>addLineNumbers(lines, start)\<close>.\<close>

definition addLineNumbers :: "string list \<Rightarrow> int \<Rightarrow> string list" where
  "addLineNumbers ls start =
     map (\<lambda>(index, line). padStart 6 (toString (start + int index)) @ '' '' @ line)
       (List.enumerate 0 ls)"

definition decodeLines :: "runtime \<Rightarrow> 8 word list \<Rightarrow> string list" where
  "decodeLines R buffer = split CHR 0x0A (replaceCRLF (utf8ToString R buffer))"

definition readFile :: "runtime \<Rightarrow> remote \<Rightarrow> RepoTarget \<Rightarrow> string \<Rightarrow> ReadOptions \<Rightarrow> ViewerState \<Rightarrow> (error + ReadResult) \<times> ViewerState" where
  "readFile R W target filePath options s =
     (case ghFetch (fetchContents W)
             (ContentsRequest target (encodeContentPath filePath)
                (if truthyOpt (readRef options) then readRef options else None)) s of
        (Inl e, s') \<Rightarrow> (Inl e, s')
      | (Inr entry, s') \<Rightarrow>
          if \<not> truthyOpt (c_content entry) \<or> c_type entry \<noteq> Some ''file''
          then (Inl (Viewer (NotAFile filePath)), s')
          else (case bufferFrom R (orEmpty (c_content entry))
                       (case c_encoding entry of None \<Rightarrow> ''base64'' | Some enc \<Rightarrow> enc) of
                  None \<Rightarrow> (Inl Other, s')
                | Some buffer \<Rightarrow>
                    if readRange options = None \<and> length buffer > 204800
                    then (Inl (Viewer (FileTooLarge (length buffer) filePath)), s')
                    else (let fileLines = decodeLines R buffer;
                              selected = (case readRange options of
                                            None \<Rightarrow> fileLines
                                          | Some r \<Rightarrow> extractRange fileLines r);
                              lineOffset = (case readRange options of None \<Rightarrow> 1 | Some r \<Rightarrow> rangeStart r);
                              outputLines = (if includeLineNumbers options
                                             then addLineNumbers selected lineOffset
                                             else selected)
                          in (Inr \<lparr>readPath = filePath, readResultRef = readRef options,
                                   readResultRange = readRange options, lines = outputLines\<rparr>, s'))))"

subsection \<open>Tree glob matcher\<close>

record GlobResult =
  globPattern :: string
  globRef :: string
  globMatches :: "string list"
  globTruncated :: bool

definition getDefaultBranch :: "remote \<Rightarrow> RepoTarget \<Rightarrow> ViewerState \<Rightarrow> (error + string) \<times> ViewerState" where
  "getDefaultBranch W target s =
     (let key = rt_owner target @ ''/'' @ rt_repo target
      in if truthyOpt (repoDefaults s key) then (Inr (orEmpty (repoDefaults s key)), s)
         else (case ghFetch (fetchRepository W) (RepositoryRequest target) s of
                 (Inl e, s') \<Rightarrow> (Inl e, s')
               | (Inr default_branch, s') \<Rightarrow>
                   if \<not> truthyOpt default_branch then (Inl (Viewer NoDefaultBranch), s')
                   else (Inr (orEmpty default_branch),
                         s'\<lparr>repoDefaults := (repoDefaults s')(key \<mapsto> orEmpty default_branch)\<rparr>)))"

definition fetchTree :: "remote \<Rightarrow> RepoTarget \<Rightarrow> string \<Rightarrow> ViewerState \<Rightarrow> (error + GitHubTreeResponse) \<times> ViewerState" where
  "fetchTree W target ref s =
     (case ghFetch (fetchTreeBody W) (TreeRequest target ref) s of
        (Inl e, s') \<Rightarrow> (Inl e, s')
      | (Inr body, s') \<Rightarrow>
          if tree body = None then (Inl (Viewer (NoTreeData ref)), s') else (Inr body, s'))"

text \<open>\<^verbatim>\<open>globFiles(repo, pattern, options)\<close>; \<open>optionsRef\<close> is \<^verbatim>\<open>options.ref\<close>.\<close>

definition globFiles :: "runtime \<Rightarrow> remote \<Rightarrow> RepoTarget \<Rightarrow> string \<Rightarrow> string option \<Rightarrow> ViewerState \<Rightarrow> (error + GlobResult) \<times> ViewerState" where
  "globFiles R W target pat optionsRef s =
     (case (case optionsRef of None \<Rightarrow> getDefaultBranch W target s | Some r \<Rightarrow> (Inr r, s)) of
        (Inl e, s1) \<Rightarrow> (Inl e, s1)
      | (Inr ref, s1) \<Rightarrow>
          (let cacheKey = rt_owner target @ ''/'' @ rt_repo target @ ''@'' @ ref @ '':'' @ pat
           in case (if treeCache s1 cacheKey = None
                    then (case fetchTree W target ref s1 of
                            (Inl e, s2) \<Rightarrow> (Inl e, s2)
                          | (Inr body, s2) \<Rightarrow>
                              (Inr (),
                               s2\<lparr>treeCache := (treeCache s2)(cacheKey \<mapsto>
                                    \<lparr>cachedMatches =
                                       map t_path
                                         (filter (\<lambda>entry. t_type entry = ''blob'' \<and> minimatch R (t_path entry) pat)
                                            (case tree body of None \<Rightarrow> [] | Some entries \<Rightarrow> entries)),
                                     cachedTruncated = (case truncated body of None \<Rightarrow> False | Some b \<Rightarrow> b)\<rparr>)\<rparr>))
                    else (Inr (), s1)) of
                (Inl e, s2) \<Rightarrow> (Inl e, s2)
              | (Inr u, s2) \<Rightarrow>
                  (case treeCache s2 cacheKey of
                     None \<Rightarrow> (Inl (Viewer CacheFailed), s2)
                   | Some cached \<Rightarrow>
                       (Inr \<lparr>globPattern = pat, globRef = ref,
                             globMatches = cachedMatches cached,
                             globTruncated = cachedTruncated cached\<rparr>, s2))))"

subsection \<open>Compare\<close>

record CompareFileChange =
  sha :: "string option"
  filename :: string
  status :: string
  fileAdditions :: int
  fileDeletions :: int
  changes :: int
  patch :: "string option"
  previousFilename :: "string option"

record CompareCommitsResult =
  base :: string
  head :: string
  aheadBy :: int
  behindBy :: int
  totalCommits :: int
  changedFiles :: "CompareFileChange list"

text \<open>\<^verbatim>\<open>compareCommits(repo, base, head, options)\<close>; \<open>includePatches\<close> is
  \<^verbatim>\<open>options.includePatches\<close>, \<open>None\<close> when unset.\<close>

definition compareCommits :: "remote \<Rightarrow> RepoTarget \<Rightarrow> string \<Rightarrow> string \<Rightarrow> bool option \<Rightarrow> ViewerState \<Rightarrow> (error + CompareCommitsResult) \<times> ViewerState" where
  "compareCommits W target baseRef headRef includePatches s =
     (if \<not> truthy baseRef then (Inl (Viewer BaseRequired), s)
      else if \<not> truthy headRef then (Inl (Viewer HeadRequired), s)
      else (case ghFetch (fetchCompare W) (CompareRequest target baseRef headRef) s of
              (Inl e, s') \<Rightarrow> (Inl e, s')
            | (Inr payload, s') \<Rightarrow>
                (Inr \<lparr>base = baseRef, head = headRef,
                      aheadBy = (case ahead_by payload of None \<Rightarrow> 0 | Some n \<Rightarrow> n),
                      behindBy = (case behind_by payload of None \<Rightarrow> 0 | Some n \<Rightarrow> n),
                      totalCommits =
                        (case total_commits payload of
                           Some n \<Rightarrow> n
                         | None \<Rightarrow> (case commits payload of None \<Rightarrow> 0 | Some cs \<Rightarrow> int (length cs))),
                      changedFiles =
                        map (\<lambda>file. \<lparr>sha = f_sha file, filename = f_filename file,
                                     status = f_status file, fileAdditions = f_additions file,
                                     fileDeletions = f_deletions file, changes = f_changes file,
                                     patch = (if includePatches = Some True then f_patch file else None),
                                     previousFilename = f_previous_filename file\<rparr>)
                          (case files payload of None \<Rightarrow> [] | Some fs \<Rightarrow> fs)\<rparr>, s')))"

subsection \<open>Repository identifiers\<close>

text \<open>\<^verbatim>\<open>parseRepo(slug)\<close>.\<close>

definition parseRepo :: "string \<Rightarrow> ViewerError + RepoTarget" where
  "parseRepo slug =
     (case split CHR ''/'' slug of
        [p0, p1] \<Rightarrow>
          if \<not> truthy p0 \<or> \<not> truthy p1 then Inl (InvalidSlug slug)
          else Inr \<lparr>rt_owner = p0, rt_repo = p1\<rparr>
      | _ \<Rightarrow> Inl (InvalidSlug slug))"

subsection \<open>Code search and commit search\<close>

text \<open>\<^verbatim>\<open>Math.min(100, toCollect - collected.length)\<close>.\<close>

definition pageSize :: "enat \<Rightarrow> nat \<Rightarrow> nat" where
  "pageSize toCollect n = (case toCollect - enat n of \<infinity> \<Rightarrow> 100 | enat k \<Rightarrow> min 100 k)"

text \<open>The loop \<^verbatim>\<open>while (collected.length < toCollect)\<close> of \<^verbatim>\<open>searchCode\<close> and of
  \<^verbatim>\<open>searchCommits\<close>: \<open>f\<close> is the endpoint, \<open>mkRequest perPage page\<close> the URL. With an
  offset of \<^verbatim>\<open>Infinity\<close> it ends only when a page comes short.\<close>

partial_function (option) collectItems :: "(request list \<Rightarrow> request \<Rightarrow> 'a list option response) \<Rightarrow> (nat \<Rightarrow> nat \<Rightarrow> request) \<Rightarrow> enat \<Rightarrow> nat \<Rightarrow> 'a list \<Rightarrow> ViewerState \<Rightarrow> ((error + 'a list) \<times> ViewerState) option" where
  "collectItems f mkRequest toCollect page collected s =
     (if enat (length collected) < toCollect
      then (let perPage = pageSize toCollect (length collected)
            in case ghFetch f (mkRequest perPage page) s of
                 (fetched, s') \<Rightarrow>
                   (case fetched of
                      Inl e \<Rightarrow> Some (Inl e, s')
                    | Inr body \<Rightarrow>
                        (let items = (case body of None \<Rightarrow> [] | Some xs \<Rightarrow> xs)
                         in if length items = 0 then Some (Inr collected, s')
                            else (let collected' = collected @ items
                                  in if length items < perPage then Some (Inr collected', s')
                                     else collectItems f mkRequest toCollect (page + 1) collected' s'))))
      else Some (Inr collected, s))"

declare collectItems.simps [code]

text \<open>\<^verbatim>\<open>loadBlobLines(repo, sha)\<close>; a cached array is truthy even when empty.\<close>

definition loadBlobLines :: "runtime \<Rightarrow> remote \<Rightarrow> RepoTarget \<Rightarrow> string \<Rightarrow> ViewerState \<Rightarrow> (error + string list) \<times> ViewerState" where
  "loadBlobLines R W target blobSha s =
     (let cacheKey = rt_owner target @ ''/'' @ rt_repo target @ '':'' @ blobSha
      in case blobCache s cacheKey of
           Some cached \<Rightarrow> (Inr cached, s)
         | None \<Rightarrow>
             (case ghFetch (fetchBlob W) (BlobRequest target blobSha) s of
                (Inl e, s') \<Rightarrow> (Inl e, s')
              | (Inr payload, s') \<Rightarrow>
                  if \<not> truthyOpt (b_content payload) then (Inl (Viewer NoBlobContent), s')
                  else (case bufferFrom R (orEmpty (b_content payload))
                               (case b_encoding payload of None \<Rightarrow> ''base64'' | Some enc \<Rightarrow> enc) of
                          None \<Rightarrow> (Inl Other, s')
                        | Some buffer \<Rightarrow>
                            (let fileLines = decodeLines R buffer
                             in (Inr fileLines,
                                 s'\<lparr>blobCache := (blobCache s')(cacheKey \<mapsto> fileLines)\<rparr>)))))"

text \<open>\<^verbatim>\<open>stripHighlights(value)\<close>: \<^verbatim>\<open>value.replace(/<\/?em>/g, "")\<close>.\<close>

function stripHighlights :: "string \<Rightarrow> string" where
  "stripHighlights [] = []"
| "stripHighlights (c # cs) =
     (if startsWith (c # cs) ''<em>'' then stripHighlights (drop 3 cs)
      else if startsWith (c # cs) ''</em>'' then stripHighlights (drop 4 cs)
      else c # stripHighlights cs)"
  by pat_completeness auto
termination
  by (relation "measure length") auto

text \<open>\<^verbatim>\<open>findLineIndicesInFile(fileLines, needle)\<close>: the loop stops at the first hit.\<close>

fun firstLineIncluding :: "runtime \<Rightarrow> string \<Rightarrow> string list \<Rightarrow> int \<Rightarrow> int list" where
  "firstLineIncluding R lowerNeedle [] index = []"
| "firstLineIncluding R lowerNeedle (line # rest) index =
     (if stringIncludes (toLowerCase R line) lowerNeedle then [index]
      else firstLineIncluding R lowerNeedle rest (index + 1))"

definition findLineIndicesInFile :: "runtime \<Rightarrow> string list \<Rightarrow> string \<Rightarrow> int list" where
  "findLineIndicesInFile R fileLines needle =
     (let trimmed = trim needle
      in if length trimmed = 0 then []
         else firstLineIncluding R (toLowerCase R trimmed) fileLines 0)"

text \<open>\<^verbatim>\<open>indices.add(index)\<close> on a \<^verbatim>\<open>Set\<close>, kept in insertion order.\<close>

definition setAdd :: "int \<Rightarrow> int list \<Rightarrow> int list" where
  "setAdd x xs = (if x \<in> set xs then xs else xs @ [x])"

text \<open>The body of the loop of \<^verbatim>\<open>collectMatchLineIndices\<close> for one text match. The
  replacement of U+2026 is the identity on the strings of this model.\<close>

definition addMatchIndices :: "runtime \<Rightarrow> string list \<Rightarrow> GitHubTextMatch \<Rightarrow> int list \<Rightarrow> int list" where
  "addMatchIndices R fileLines m indices =
     (let indices1 =
            fold (\<lambda>fragmentMatch acc.
                    if truthyOpt fragmentMatch
                    then fold setAdd (findLineIndicesInFile R fileLines (orEmpty fragmentMatch)) acc
                    else acc)
                 (case matches m of None \<Rightarrow> [] | Some fs \<Rightarrow> fs) indices
      in if truthyOpt (fragment m)
         then (let fragmentLines =
                     filter (\<lambda>line. length line > 0)
                       (map trim (split CHR 0x0A (stripHighlights (orEmpty (fragment m)))))
               in fold (\<lambda>fragmentLine acc. fold setAdd (findLineIndicesInFile R fileLines fragmentLine) acc)
                    fragmentLines indices1)
         else indices1)"

definition collectMatchLineIndices :: "runtime \<Rightarrow> GitHubTextMatch list \<Rightarrow> string list \<Rightarrow> int list" where
  "collectMatchLineIndices R ms fileLines = sort (fold (addMatchIndices R fileLines) ms [])"

record CodeSearchOptions =
  cs_pattern :: string
  cs_path :: "string option"
  cs_limit :: "number option"
  cs_offset :: "number option"
  cs_context :: "int option"

record CodeSearchResultItem =
  itemOwner :: string
  itemRepo :: string
  itemFullName :: string
  itemPath :: string
  itemRef :: string
  itemLanguage :: "string option"
  itemScore :: "rat option"
  snippets :: "CodeSearchSnippet list"
  itemHtmlUrl :: string

text \<open>The loop \<^verbatim>\<open>for (const entry of results)\<close> of \<^verbatim>\<open>searchCode\<close>, with the local map
  \<^verbatim>\<open>fileCache\<close> and the array \<^verbatim>\<open>prepared\<close>.\<close>

fun prepareItems :: "runtime \<Rightarrow> remote \<Rightarrow> RepoTarget \<Rightarrow> int option \<Rightarrow> GitHubCodeSearchItem list \<Rightarrow> (string \<rightharpoonup> string list) \<Rightarrow> CodeSearchResultItem list \<Rightarrow> ViewerState \<Rightarrow> (error + CodeSearchResultItem list) \<times> ViewerState" where
  "prepareItems R W target context [] fileCache prepared s = (Inr prepared, s)"
| "prepareItems R W target context (item # rest) fileCache prepared s =
     (let parts = split CHR ''/'' (i_repository_full_name item);
          targetRepo = (case parts of
                          [] \<Rightarrow> target
                        | [p0] \<Rightarrow> \<lparr>rt_owner = p0, rt_repo = rt_repo target\<rparr>
                        | p0 # p1 # ps \<Rightarrow> \<lparr>rt_owner = p0, rt_repo = p1\<rparr>);
          cacheKey = rt_owner targetRepo @ ''/'' @ rt_repo targetRepo @ '':'' @ i_sha item
      in case (if fileCache cacheKey = None
               then (case loadBlobLines R W targetRepo (i_sha item) s of
                       (Inl (Viewer e), s') \<Rightarrow> (Inr (fileCache(cacheKey \<mapsto> [])), s')
                     | (Inl Other, s') \<Rightarrow> (Inl Other, s')
                     | (Inr fileLines, s') \<Rightarrow> (Inr (fileCache(cacheKey \<mapsto> fileLines)), s'))
               else (Inr fileCache, s)) of
           (Inl e, s') \<Rightarrow> (Inl e, s')
         | (Inr fileCache', s') \<Rightarrow>
             (let fileLines = (case fileCache' cacheKey of None \<Rightarrow> [] | Some ls \<Rightarrow> ls);
                  matchLines = collectMatchLineIndices R
                                 (case i_text_matches item of None \<Rightarrow> [] | Some ms \<Rightarrow> ms) fileLines;
                  snips = createSnippetsFromLines fileLines matchLines context
              in prepareItems R W target context rest fileCache'
                   (prepared @ [\<lparr>itemOwner = rt_owner targetRepo, itemRepo = rt_repo targetRepo,
                                  itemFullName = i_repository_full_name item,
                                  itemPath = i_path item, itemRef = i_sha item,
                                  itemLanguage = None, itemScore = i_score item,
                                  snippets = snips, itemHtmlUrl = i_html_url item\<rparr>]) s'))"

definition codeQuery :: "RepoTarget \<Rightarrow> string \<Rightarrow> string option \<Rightarrow> string" where
  "codeQuery target trimmedPattern pathOption =
     (let repoQualifier = ''repo:'' @ rt_owner target @ ''/'' @ rt_repo target;
          q1 = [trimmedPattern];
          q2 = (if \<not> stringIncludes trimmedPattern repoQualifier then q1 @ [repoQualifier] else q1);
          q3 = (if truthyOpt pathOption then q2 @ [''path:'' @ orEmpty pathOption] else q2)
      in join '' '' q3)"

definition searchCode :: "runtime \<Rightarrow> remote \<Rightarrow> RepoTarget \<Rightarrow> CodeSearchOptions \<Rightarrow> ViewerState \<Rightarrow> ((error + CodeSearchResultItem list) \<times> ViewerState) option" where
  "searchCode R W target options s =
     (let limit = normalizeLimit (cs_limit options) 30 100;
          offset = normalizeOffset (cs_offset options);
          toCollect = offset + enat limit;
          trimmedPattern = trim (cs_pattern options)
      in if length trimmedPattern = 0 then Some (Inl (Viewer EmptyPattern), s)
         else (case collectItems (fetchCodeSearch W)
                      (SearchCodeRequest (codeQuery target trimmedPattern (cs_path options)))
                      toCollect 1 [] s of
                 None \<Rightarrow> None
               | Some (Inl e, s') \<Rightarrow> Some (Inl e, s')
               | Some (Inr collected, s') \<Rightarrow>
                   if length collected = 0 then Some (Inr [], s')
                   else Some (prepareItems R W target (cs_context options)
                                (slice collected offset (offset + enat limit)) Map.empty [] s')))"

record CommitSearchOptions =
  co_query :: "string option"
  co_author :: "string option"
  co_path :: "string option"
  co_since :: "string option"
  co_until :: "string option"
  co_limit :: "number option"
  co_offset :: "number option"

record CommitSearchResultItem =
  commitSha :: string
  message :: string
  authorName :: "string option"
  authorEmail :: "string option"
  date :: "string option"
  commitHtmlUrl :: string
  stats :: "CommitStats option"

definition commitQuery :: "RepoTarget \<Rightarrow> CommitSearchOptions \<Rightarrow> string" where
  "commitQuery target options =
     (let q0 = [''repo:'' @ rt_owner target @ ''/'' @ rt_repo target];
          q1 = (if truthyOpt (co_query options) then q0 @ [orEmpty (co_query options)] else q0);
          q2 = (if truthyOpt (co_author options) then q1 @ [''author:'' @ orEmpty (co_author options)] else q1);
          q3 = (if truthyOpt (co_path options) then q2 @ [''path:'' @ orEmpty (co_path options)] else q2);
          q4 = (if truthyOpt (co_since options)
                then q3 @ [''committer-date:>='' @ orEmpty (co_since options)] else q3);
          q5 = (if truthyOpt (co_until options)
                then q4 @ [''committer-date:<='' @ orEmpty (co_until options)] else q4)
      in join '' '' q5)"

definition searchCommits :: "remote \<Rightarrow> RepoTarget \<Rightarrow> CommitSearchOptions \<Rightarrow> ViewerState \<Rightarrow> ((error + CommitSearchResultItem list) \<times> ViewerState) option" where
  "searchCommits W target options s =
     (let limit = normalizeLimit (co_limit options) 50 100;
          offset = normalizeOffset (co_offset options);
          toCollect = offset + enat limit
      in case collectItems (fetchCommitSearch W) (SearchCommitsRequest (commitQuery target options))
                toCollect 1 [] s of
           None \<Rightarrow> None
         | Some (Inl e, s') \<Rightarrow> Some (Inl e, s')
         | Some (Inr collected, s') \<Rightarrow>
             Some (Inr (map (\<lambda>item. \<lparr>commitSha = k_sha item,
                                      message = (case k_commit_message item of None \<Rightarrow> [] | Some m \<Rightarrow> m),
                                      authorName = (case k_commit_author_name item of
                                                      Some n \<Rightarrow> Some n
                                                    | None \<Rightarrow> k_author_login item),
                                      authorEmail = k_commit_author_email item,
                                      date = k_commit_author_date item,
                                      commitHtmlUrl = k_html_url item,
                                      stats = k_stats item\<rparr>)
                            (slice collected offset (offset + enat limit))), s'))"

subsection \<open>Notions of the specification\<close>

text \<open>The order of the specification on candidates: priority ascending, then star count
  descending, then relevance score descending (0 when absent), then full name
  ascending in the collation of \<^verbatim>\<open>localeCompare\<close>.\<close>

definition scoreOrZero :: "Candidate \<Rightarrow> rat" where
  "scoreOrZero c = (case candScore c of None \<Rightarrow> 0 | Some x \<Rightarrow> x)"

definition specifiedOrder :: "runtime \<Rightarrow> Candidate \<Rightarrow> Candidate \<Rightarrow> bool" where
  "specifiedOrder R a b =
     (priority a < priority b
      \<or> (priority a = priority b
         \<and> (candStars b < candStars a
            \<or> (candStars a = candStars b
               \<and> (scoreOrZero b < scoreOrZero a
                  \<or> (scoreOrZero a = scoreOrZero b
                     \<and> localeCompare R (fullName (summary a)) (fullName (summary b)) \<le> 0))))))"

text \<open>Whether a logged request went to the tree endpoint.\<close>

fun isTreeRequest :: "request \<Rightarrow> bool" where
  "isTreeRequest (TreeRequest target ref) = True"
| "isTreeRequest other = False"

text \<open>A sorted slice: \<open>result\<close> holds the summaries of the window \<open>[offset, offset + limit)\<close>
  of an arrangement of \<open>merged\<close> in the specified order; an arrangement of candidates of one
  priority and distinct star counts is strictly descending in stars.\<close>

definition isSortedSlice :: "runtime \<Rightarrow> RepositorySearchParams \<Rightarrow> Candidate list \<Rightarrow> RepositorySummary list \<Rightarrow> bool" where
  "isSortedSlice R params merged result =
     (\<exists>ordered.
        mset ordered = mset merged
      \<and> sorted_wrt (specifiedOrder R) ordered
      \<and> result = map summary
           (case normalizeOffset (sp_offset params) of
              \<infinity> \<Rightarrow> []
            | enat offset \<Rightarrow> take (normalizeLimit (sp_limit params) 30 100) (drop offset ordered))
      \<and> ((\<exists>p. \<forall>c \<in> set ordered. priority c = p) \<and> distinct (map candStars ordered)
           \<longrightarrow> sorted_wrt (\<lambda>a b. candStars b < candStars a) ordered))"

text \<open>Pagination ends: once \<open>bound\<close> requests have been logged, a listing page carries no
  next link and a search page holds fewer than 100 items.\<close>

definition paginationEnds :: "remote \<Rightarrow> nat \<Rightarrow> bool" where
  "paginationEnds W bound =
     (\<forall>logged req. bound \<le> length logged \<longrightarrow>
        (case fetchRepoPage W logged req of
           Body page \<Rightarrow> \<not> truthyOpt (nextLink page)
         | _ \<Rightarrow> True)
        \<and> (case fetchRepoSearch W logged req of
             Body body \<Rightarrow> length (case body of None \<Rightarrow> [] | Some xs \<Rightarrow> xs) < 100
           | _ \<Rightarrow> True))"

text \<open>The remote answers every listing and search request with a body.\<close>

definition answersDiscovery :: "remote \<Rightarrow> bool" where
  "answersDiscovery W =
     (\<forall>logged req. (\<exists>page. fetchRepoPage W logged req = Body page)
        \<and> (\<exists>body. fetchRepoSearch W logged req = Body body))"

text \<open>The window of the specification around the match index \<open>i\<close> with context \<open>c\<close>: the
  1-based lines \<open>max 0 (i - c) + 1\<close> to \<open>min n (i + c + 1)\<close> of a file of \<open>n\<close> lines.\<close>

definition snippetWindow :: "string list \<Rightarrow> int \<Rightarrow> int \<Rightarrow> CodeSearchSnippet" where
  "snippetWindow fileLines c i =
     \<lparr>startLine = max 0 (i - c) + 1,
      endLine = min (int (length fileLines)) (i + c + 1),
      snippetLines = map (\<lambda>k. fileLines ! k)
         [nat (max 0 (i - c)) ..< nat (min (int (length fileLines)) (i + c + 1))]\<rparr>"

definition contextOrDefault :: "int option \<Rightarrow> int" where
  "contextOrDefault context = (case context of None \<Rightarrow> 2 | Some c \<Rightarrow> c)"

text \<open>The repository of a code-search hit, the key of its blob, and the lines of its file
  as the blob cache of a state holds them (none when the blob could not be read).\<close>

definition hitTarget :: "RepoTarget \<Rightarrow> GitHubCodeSearchItem \<Rightarrow> RepoTarget" where
  "hitTarget target item =
     (case split CHR ''/'' (i_repository_full_name item) of
        [] \<Rightarrow> target
      | [p0] \<Rightarrow> \<lparr>rt_owner = p0, rt_repo = rt_repo target\<rparr>
      | p0 # p1 # ps \<Rightarrow> \<lparr>rt_owner = p0, rt_repo = p1\<rparr>)"

definition hitKey :: "RepoTarget \<Rightarrow> GitHubCodeSearchItem \<Rightarrow> string" where
  "hitKey target item =
     rt_owner (hitTarget target item) @ ''/'' @ rt_repo (hitTarget target item) @ '':'' @ i_sha item"

definition hitLines :: "RepoTarget \<Rightarrow> ViewerState \<Rightarrow> GitHubCodeSearchItem \<Rightarrow> string list" where
  "hitLines target s item =
     (case blobCache s (hitKey target item) of None \<Rightarrow> [] | Some fileLines \<Rightarrow> fileLines)"

text \<open>A result item carries the windows of a hit: one snippet per match line index of the
  hit's file, in the order of the indices, each the window of its index.\<close>

definition hitWindows :: "runtime \<Rightarrow> RepoTarget \<Rightarrow> int \<Rightarrow> ViewerState \<Rightarrow> GitHubCodeSearchItem \<Rightarrow> CodeSearchResultItem \<Rightarrow> bool" where
  "hitWindows R target c s item hit =
     (itemPath hit = i_path item \<and> itemRef hit = i_sha item
      \<and> snippets hit =
          map (snippetWindow (hitLines target s item) c)
            (collectMatchLineIndices R
               (case i_text_matches item of None \<Rightarrow> [] | Some ms \<Rightarrow> ms)
               (hitLines target s item)))"

text \<open>The remote answers every code search with a body and never rejects a blob request,
  and \<^verbatim>\<open>Buffer.from\<close> never throws.\<close>

definition answersCode :: "runtime \<Rightarrow> remote \<Rightarrow> bool" where
  "answersCode R W =
     ((\<forall>logged req. (\<exists>body. fetchCodeSearch W logged req = Body body)
         \<and> fetchBlob W logged req \<noteq> FetchRejected)
      \<and> (\<forall>content encoding. bufferFrom R content encoding \<noteq> None))"

subsection \<open>An instance of the runtime and of the remote, for examples\<close>

text \<open>Code-unit order for \<^verbatim>\<open>localeCompare\<close>, ASCII case folding, buffers that hold the
  content's code units as bytes, and patterns that match themselves.\<close>

fun compareUnits :: "string \<Rightarrow> string \<Rightarrow> int" where
  "compareUnits [] [] = 0"
| "compareUnits [] (b # bs) = - 1"
| "compareUnits (a # as) [] = 1"
| "compareUnits (a # as) (b # bs) =
     (if (of_char a :: nat) < of_char b then - 1
      else if (of_char b :: nat) < of_char a then 1
      else compareUnits as bs)"

definition asciiLower :: "string \<Rightarrow> string" where
  "asciiLower s =
     map (\<lambda>c. if 65 \<le> (of_char c :: nat) \<and> (of_char c :: nat) \<le> 90
               then char_of ((of_char c :: nat) + 32) else c) s"

definition exampleRuntime :: runtime where
  "exampleRuntime =
     \<lparr>localeCompare = compareUnits,
      localeCompareAccent = (\<lambda>a b. compareUnits (asciiLower a) (asciiLower b)),
      toLowerCase = asciiLower,
      bufferFrom = (\<lambda>content encoding. Some (map (\<lambda>c. of_nat (of_char c)) content)),
      utf8ToString = map (\<lambda>b. char_of (unat b)),
      minimatch = (\<lambda>path pat. path = pat)\<rparr>"

definition emptyRepo :: GitHubRepoSummary where
  "emptyRepo =
     \<lparr>r_full_name = None, r_name = None, r_description = None, r_language = None,
      r_stargazers_count = None, r_forks_count = None, r_private = None, r_html_url = None,
      r_default_branch = None, r_topics = None, r_visibility = None, r_owner_login = None,
      r_score = None\<rparr>"

text \<open>A remote without credential whose every endpoint answers with a status that is
  not \<^verbatim>\<open>ok\<close>.\<close>

definition silentRemote :: remote where
  "silentRemote =
     \<lparr>authToken = None,
      fetchRepoPage = (\<lambda>log req. NotOk),
      fetchRepoSearch = (\<lambda>log req. NotOk),
      fetchContents = (\<lambda>log req. NotOk),
      fetchRepository = (\<lambda>log req. NotOk),
      fetchTreeBody = (\<lambda>log req. NotOk),
      fetchCodeSearch = (\<lambda>log req. NotOk),
      fetchCommitSearch = (\<lambda>log req. NotOk),
      fetchCompare = (\<lambda>log req. NotOk),
      fetchBlob = (\<lambda>log req. NotOk)\<rparr>"

text \<open>A remote with a credential: the user listing holds one repository without
  language, and so does the search.\<close>

definition languageRemote :: remote where
  "languageRemote = silentRemote
     \<lparr>authToken := Some ''token'',
      fetchRepoPage := (\<lambda>log req.
         if req = UserReposRequest
         then Body \<lparr>pageItems = [emptyRepo\<lparr>r_full_name := Some ''acme/tool'', r_name := Some ''tool''\<rparr>],
                    nextLink = None\<rparr>
         else NotOk),
      fetchRepoSearch := (\<lambda>log req.
         Body (Some [emptyRepo\<lparr>r_full_name := Some ''public/thing'', r_name := Some ''thing'',
                               r_stargazers_count := Some 10\<rparr>]))\<rparr>"

text \<open>A remote with a credential whose every listing holds three repositories on one
  page and whose search finds nothing.\<close>

definition orderingRemote :: remote where
  "orderingRemote = silentRemote
     \<lparr>authToken := Some ''token'',
      fetchRepoPage := (\<lambda>log req.
         Body \<lparr>pageItems =
                 [emptyRepo\<lparr>r_full_name := Some ''acme/low'', r_stargazers_count := Some 1\<rparr>,
                  emptyRepo\<lparr>r_full_name := Some ''acme/high'', r_stargazers_count := Some 50\<rparr>,
                  emptyRepo\<lparr>r_full_name := Some ''acme/mid'', r_stargazers_count := Some 7\<rparr>],
               nextLink = None\<rparr>),
      fetchRepoSearch := (\<lambda>log req. Body (Some []))\<rparr>"

text \<open>A remote whose contents endpoint answers with one file, \<open>entry\<close>.\<close>

definition fileRemote :: "GitHubContentEntry \<Rightarrow> remote" where
  "fileRemote entry = silentRemote\<lparr>fetchContents := (\<lambda>log req. Body entry)\<rparr>"

definition fileEntry :: "string \<Rightarrow> GitHubContentEntry" where
  "fileEntry content =
     \<lparr>c_type = Some ''file'', c_name = Some ''file.txt'', c_path = Some ''file.txt'',
      c_size = None, c_target = None, c_content = Some content, c_encoding = Some ''base64'',
      c_sha = None\<rparr>"

text \<open>A remote whose repository endpoint names the default branch \<^verbatim>\<open>main\<close> and whose tree
  endpoint answers with two blobs and a directory, marked truncated.\<close>

definition treeRemote :: remote where
  "treeRemote = silentRemote
     \<lparr>fetchRepository := (\<lambda>log req. Body (Some ''main'')),
      fetchTreeBody := (\<lambda>log req.
         Body \<lparr>tree = Some [\<lparr>t_path = ''README.md'', t_type = ''blob''\<rparr>,
                             \<lparr>t_path = ''src'', t_type = ''tree''\<rparr>,
                             \<lparr>t_path = ''src/index.ts'', t_type = ''blob''\<rparr>],
                truncated = Some True\<rparr>)\<rparr>"

text \<open>A remote whose compare endpoint answers with one modified file that carries a
  patch.\<close>

definition compareRemote :: remote where
  "compareRemote = silentRemote
     \<lparr>fetchCompare := (\<lambda>log req.
         Body \<lparr>ahead_by = Some 2, behind_by = Some 0, total_commits = Some 2, commits = None,
                files = Some [\<lparr>f_sha = None, f_filename = ''src/index.ts'',
                                f_status = ''modified'', f_additions = 5, f_deletions = 1,
                                f_changes = 6, f_patch = Some ''@@ -1,1 +1,1 @@'',
                                f_previous_filename = None\<rparr>]\<rparr>)\<rparr>"

text \<open>A remote whose commit search fills every page it is asked for, and whose code
  search finds one file with one highlighted match; the file's blob has three lines.\<close>

definition exampleCommit :: GitHubCommitSearchItem where
  "exampleCommit =
     \<lparr>k_sha = ''abcdef123456'', k_html_url = ''https://github.com/acme/example/commit/abcdef123456'',
      k_commit_message = Some ''Fix bug'', k_commit_author_name = Some ''Alex'',
      k_commit_author_email = Some ''alex@example.com'',
      k_commit_author_date = Some ''2024-05-01T00:00:00Z'', k_author_login = None,
      k_stats = Some \<lparr>additions = Some 10, deletions = Some 2, total = Some 12\<rparr>\<rparr>"

definition searchRemote :: remote where
  "searchRemote = silentRemote
     \<lparr>fetchCommitSearch := (\<lambda>log req.
         case req of
           SearchCommitsRequest query perPage page \<Rightarrow> Body (Some (replicate perPage exampleCommit))
         | _ \<Rightarrow> NotOk),
      fetchCodeSearch := (\<lambda>log req.
         Body (Some [\<lparr>i_path = ''src/index.ts'', i_sha = ''abc123'',
                       i_html_url = ''https://github.com/acme/example/blob/main/src/index.ts'',
                       i_score = None, i_repository_full_name = ''acme/example'',
                       i_repository_name = ''example'', i_repository_owner_login = None,
                       i_text_matches =
                         Some [\<lparr>fragment = None, matches = Some [Some ''greet'']\<rparr>]\<rparr>])),
      fetchBlob := (\<lambda>log req.
         Body \<lparr>b_content = Some ''export function greet() {\<newline>  return 1;\<newline>}'',
                b_encoding = Some ''base64''\<rparr>)\<rparr>"

text \<open>A remote whose code search finds one file with the highlighted match \<open>needle\<close>; the
  file's blob holds the eight lines of the unit test.\<close>

definition windowRemote :: "string \<Rightarrow> remote" where
  "windowRemote needle = silentRemote
     \<lparr>fetchCodeSearch := (\<lambda>log req.
         Body (Some [\<lparr>i_path = ''notes.txt'', i_sha = ''abc123'',
                       i_html_url = ''https://github.com/acme/example/blob/main/notes.txt'',
                       i_score = None, i_repository_full_name = ''acme/example'',
                       i_repository_name = ''example'', i_repository_owner_login = None,
                       i_text_matches =
                         Some [\<lparr>fragment = None, matches = Some [Some needle]\<rparr>]\<rparr>])),
      fetchBlob := (\<lambda>log req.
         Body \<lparr>b_content =
                  Some ''line 1\<newline>line 2\<newline>line 3\<newline>line 4\<newline>line 5\<newline>line 6\<newline>line 7\<newline>line 8'',
                b_encoding = Some ''base64''\<rparr>)\<rparr>"

section \<open>Verified properties\<close>

subsection \<open>Snippet windows\<close>

lemma pushSnippets_append:
  "pushSnippets fileLines ctx indices acc =
     acc @ map (\<lambda>index. \<lparr>startLine = max 0 (index - ctx) + 1,
                   endLine = max (max 0 (index - ctx) + 1) (min (int (length fileLines)) (index + ctx + 1)),
                   snippetLines = sliceInt fileLines (max 0 (index - ctx)) (min (int (length fileLines)) (index + ctx + 1))\<rparr>) indices"
  by (induction indices arbitrary: acc) (simp_all add: Let_def)

lemma take_drop_nth_upt:
  "t \<le> length xs \<Longrightarrow> take (t - f) (drop f xs) = map (\<lambda>k. xs ! k) [f ..< t]"
proof (rule nth_equalityI)
  assume "t \<le> length xs"
  then show "length (take (t - f) (drop f xs)) = length (map (\<lambda>k. xs ! k) [f ..< t])"
    by simp
next
  fix i
  assume "t \<le> length xs" and "i < length (take (t - f) (drop f xs))"
  then have "i < t - f" and "f + i < length xs" by simp_all
  then show "take (t - f) (drop f xs) ! i = map (\<lambda>k. xs ! k) [f ..< t] ! i"
    by (simp add: less_diff_conv add.commute)
qed

lemma sliceInt_window:
  assumes "0 \<le> a" and "a \<le> b" and "b \<le> int (length xs)"
  shows "sliceInt xs a b = map (\<lambda>k. xs ! k) [nat a ..< nat b]"
proof -
  have "relativeIndex (length xs) a = nat a" "relativeIndex (length xs) b = nat b"
    using assms by (auto simp: relativeIndex_def)
  moreover have "nat b \<le> length xs" using assms by linarith
  ultimately show ?thesis
    by (simp add: sliceInt_def Let_def take_drop_nth_upt)
qed

text \<open>For indices inside the file and a context that is not negative,
  \<^verbatim>\<open>createSnippetsFromLines\<close> yields the window of each index, in order.\<close>

lemma createSnippetsFromLines_windows:
  assumes inside: "\<forall>i \<in> set indices. 0 \<le> i \<and> i < int (length fileLines)"
    and nonneg: "0 \<le> contextOrDefault context"
  shows "createSnippetsFromLines fileLines indices context
     = map (snippetWindow fileLines (contextOrDefault context)) indices"
proof -
  let ?c = "contextOrDefault context"
  have eq: "createSnippetsFromLines fileLines indices context = pushSnippets fileLines ?c indices []"
    by (cases indices) (simp_all add: createSnippetsFromLines_def contextOrDefault_def Let_def)
  have "\<lparr>startLine = max 0 (i - ?c) + 1,
       endLine = max (max 0 (i - ?c) + 1) (min (int (length fileLines)) (i + ?c + 1)),
       snippetLines = sliceInt fileLines (max 0 (i - ?c)) (min (int (length fileLines)) (i + ?c + 1))\<rparr>
    = snippetWindow fileLines ?c i" if "i \<in> set indices" for i
  proof -
    from that inside have b: "0 \<le> i" "i < int (length fileLines)"
      by auto
    have le: "max 0 (i - ?c) + 1 \<le> min (int (length fileLines)) (i + ?c + 1)"
      using b nonneg by linarith
    have "sliceInt fileLines (max 0 (i - ?c)) (min (int (length fileLines)) (i + ?c + 1))
        = map (\<lambda>k. fileLines ! k) [nat (max 0 (i - ?c)) ..< nat (min (int (length fileLines)) (i + ?c + 1))]"
      using le by (intro sliceInt_window) linarith+
    then show ?thesis
      using le by (simp add: snippetWindow_def)
  qed
  then show ?thesis
    unfolding eq pushSnippets_append by simp
qed

text \<open>The match line indices are positions of the file.\<close>

lemma firstLineIncluding_bounds:
  "i \<in> set (firstLineIncluding R lowerNeedle fileLines index)
     \<Longrightarrow> index \<le> i \<and> i < index + int (length fileLines)"
proof (induction fileLines arbitrary: index)
  case Nil
  then show ?case by simp
next
  case (Cons line rest)
  show ?case
  proof (cases "stringIncludes (toLowerCase R line) lowerNeedle")
    case True
    with Cons.prems show ?thesis by simp
  next
    case False
    with Cons.prems have "i \<in> set (firstLineIncluding R lowerNeedle rest (index + 1))"
      by simp
    from Cons.IH [OF this] show ?thesis by simp
  qed
qed

lemma findLineIndicesInFile_bounds:
  "i \<in> set (findLineIndicesInFile R fileLines needle) \<Longrightarrow> 0 \<le> i \<and> i < int (length fileLines)"
  using firstLineIncluding_bounds [of i R "toLowerCase R (trim needle)" fileLines 0]
  by (simp add: findLineIndicesInFile_def Let_def split: if_splits)

lemma set_fold_setAdd: "set (fold setAdd xs acc) = set acc \<union> set xs"
  by (induction xs arbitrary: acc) (auto simp: setAdd_def)

lemma fold_preserves:
  assumes "\<And>x acc. P acc \<Longrightarrow> P (f x acc)" and "P acc"
  shows "P (fold f xs acc)"
  using assms(2) by (induction xs arbitrary: acc) (simp_all add: assms(1))

lemma addHits_bounds:
  assumes "\<forall>i \<in> set acc. 0 \<le> i \<and> i < int (length fileLines)"
  shows "\<forall>i \<in> set (fold setAdd (findLineIndicesInFile R fileLines needle) acc).
           0 \<le> i \<and> i < int (length fileLines)"
  using assms findLineIndicesInFile_bounds [of _ R fileLines needle]
  by (auto simp: set_fold_setAdd)

lemma addMatchIndices_bounds:
  assumes "\<forall>i \<in> set indices. 0 \<le> i \<and> i < int (length fileLines)"
  shows "\<forall>i \<in> set (addMatchIndices R fileLines m indices). 0 \<le> i \<and> i < int (length fileLines)"
proof -
  let ?inside = "\<lambda>acc. \<forall>i \<in> set acc. 0 \<le> i \<and> i < int (length fileLines)"
  let ?indices1 = "fold (\<lambda>fragmentMatch acc.
                    if truthyOpt fragmentMatch
                    then fold setAdd (findLineIndicesInFile R fileLines (orEmpty fragmentMatch)) acc
                    else acc)
                 (case matches m of None \<Rightarrow> [] | Some fs \<Rightarrow> fs) indices"
  have first: "?inside ?indices1"
  proof (rule fold_preserves [where P = ?inside])
    show "?inside indices" by (rule assms)
  next
    fix fragmentMatch acc
    assume "?inside acc"
    then show "?inside (if truthyOpt fragmentMatch
                    then fold setAdd (findLineIndicesInFile R fileLines (orEmpty fragmentMatch)) acc
                    else acc)"
      using addHits_bounds [of acc fileLines R "orEmpty fragmentMatch"] by simp
  qed
  have second: "?inside (fold (\<lambda>fragmentLine acc. fold setAdd (findLineIndicesInFile R fileLines fragmentLine) acc)
                    fragmentLines ?indices1)" for fragmentLines
  proof (rule fold_preserves [where P = ?inside])
    show "?inside ?indices1" by (rule first)
  next
    fix fragmentLine acc
    assume "?inside acc"
    then show "?inside (fold setAdd (findLineIndicesInFile R fileLines fragmentLine) acc)"
      by (rule addHits_bounds)
  qed
  show ?thesis
    unfolding addMatchIndices_def Let_def using first second by simp
qed

lemma collectMatchLineIndices_bounds:
  "\<forall>i \<in> set (collectMatchLineIndices R ms fileLines). 0 \<le> i \<and> i < int (length fileLines)"
proof -
  have "\<forall>i \<in> set (fold (addMatchIndices R fileLines) ms []). 0 \<le> i \<and> i < int (length fileLines)"
    by (rule fold_preserves [where P = "\<lambda>acc. \<forall>i \<in> set acc. 0 \<le> i \<and> i < int (length fileLines)"])
      (simp_all add: addMatchIndices_bounds)
  then show ?thesis
    by (simp add: collectMatchLineIndices_def)
qed

text \<open>\<^verbatim>\<open>loadBlobLines\<close> and the blob cache: lines that are returned are the cache's entry for
  the key afterwards; after a failure the cache is as before and has no entry for the key.\<close>

lemma loadBlobLines_cache:
  assumes "loadBlobLines R W target blobSha s = (outcome, s')"
  shows "case outcome of
           Inr fileLines \<Rightarrow>
             blobCache s' = (blobCache s)(rt_owner target @ ''/'' @ rt_repo target @ '':'' @ blobSha \<mapsto> fileLines)
         | Inl e \<Rightarrow>
             blobCache s' = blobCache s
             \<and> blobCache s (rt_owner target @ ''/'' @ rt_repo target @ '':'' @ blobSha) = None"
proof (cases "blobCache s (rt_owner target @ ''/'' @ rt_repo target @ '':'' @ blobSha)")
  case (Some cached)
  with assms have "outcome = Inr cached" and "s' = s"
    by (simp_all add: loadBlobLines_def Let_def)
  with Some show ?thesis
    by (simp add: map_upd_triv)
next
  case None
  with assms show ?thesis
    by (auto simp: loadBlobLines_def Let_def ghFetch_def
        split: response.splits if_splits option.splits)
qed

lemma loadBlobLines_answered:
  assumes "answersCode R W"
  shows "fst (loadBlobLines R W target blobSha s) \<noteq> Inl Other"
proof -
  from assms have blob: "fetchBlob W (requests s) (BlobRequest target blobSha) \<noteq> FetchRejected"
    and buffer: "\<And>content encoding. bufferFrom R content encoding \<noteq> None"
    by (simp_all add: answersCode_def)
  show ?thesis
    using blob buffer
    by (auto simp: loadBlobLines_def Let_def ghFetch_def simp del: not_None_eq
        split: response.splits if_splits option.splits)
qed

text \<open>With a finite number of items to collect the loop of \<^verbatim>\<open>searchCode\<close> ends: a page that
  does not end it adds at least one item.\<close>

lemma pageSize_positive:
  "length collected < t \<Longrightarrow> 0 < pageSize (enat t) (length collected)"
  by (simp add: pageSize_def)

lemma collectItems_returns:
  "\<exists>outcome s'. collectItems f mkRequest (enat t) page collected s = Some (outcome, s')
     \<and> ((\<forall>logged req. \<exists>body. f logged req = Body body) \<longrightarrow> (\<exists>found. outcome = Inr found))"
proof (induction "t - length collected" arbitrary: page collected s rule: less_induct)
  case less
  show ?case
  proof (cases "length collected < t")
    case False
    then show ?thesis
      by (subst collectItems.simps) simp
  next
    case below: True
    let ?perPage = "pageSize (enat t) (length collected)"
    let ?req = "mkRequest ?perPage page"
    let ?s' = "s\<lparr>requests := requests s @ [?req]\<rparr>"
    show ?thesis
    proof (cases "f (requests s) ?req")
      case FetchRejected
      have "\<not> (\<forall>logged req. \<exists>body. f logged req = Body body)"
      proof
        assume "\<forall>logged req. \<exists>body. f logged req = Body body"
        then obtain body where "f (requests s) ?req = Body body"
          by blast
        with FetchRejected show False by simp
      qed
      with below FetchRejected show ?thesis
        by (subst collectItems.simps) (simp add: ghFetch_def Let_def)
    next
      case NotOk
      have "\<not> (\<forall>logged req. \<exists>body. f logged req = Body body)"
      proof
        assume "\<forall>logged req. \<exists>body. f logged req = Body body"
        then obtain body where "f (requests s) ?req = Body body"
          by blast
        with NotOk show False by simp
      qed
      with below NotOk show ?thesis
        by (subst collectItems.simps) (simp add: ghFetch_def Let_def)
    next
      case (Body body)
      let ?items = "case body of None \<Rightarrow> [] | Some xs \<Rightarrow> xs"
      show ?thesis
      proof (cases "length ?items = 0 \<or> length ?items < ?perPage")
        case True
        with below Body show ?thesis
          by (subst collectItems.simps) (auto simp: ghFetch_def Let_def)
      next
        case False
        with pageSize_positive [OF below] have "0 < length ?items"
          by simp
        with below have smaller: "t - length (collected @ ?items) < t - length collected"
          unfolding length_append by linarith
        have step: "collectItems f mkRequest (enat t) page collected s
            = collectItems f mkRequest (enat t) (page + 1) (collected @ ?items) ?s'"
          using Body below False
          by (subst collectItems.simps) (simp add: ghFetch_def Let_def)
        from less [OF smaller] show ?thesis
          unfolding step by blast
      qed
    qed
  qed
qed


text \<open>The loop of \<^verbatim>\<open>searchCode\<close> over the hits keeps \<^verbatim>\<open>fileCache\<close> in step with the blob
  cache: an entry of \<^verbatim>\<open>fileCache\<close> holds the blob cache's lines for its key, or no lines
  when the blob cache has none, and the blob cache does not change at such a key.\<close>

lemma cacheLoad_invariant:
  fixes fileCache :: "string \<rightharpoonup> string list"
  assumes inv: "\<forall>k ls. fileCache k = Some ls \<longrightarrow> ls = (case blobCache s k of None \<Rightarrow> [] | Some l \<Rightarrow> l)"
    and key: "key = rt_owner targetRepo @ ''/'' @ rt_repo targetRepo @ '':'' @ blobSha"
    and load: "(if fileCache key = None
               then (case loadBlobLines R W targetRepo blobSha s of
                       (Inl (Viewer e), s') \<Rightarrow> (Inr (fileCache(key \<mapsto> [])), s')
                     | (Inl Other, s') \<Rightarrow> (Inl Other, s')
                     | (Inr fileLines, s') \<Rightarrow> (Inr (fileCache(key \<mapsto> fileLines)), s'))
               else (Inr fileCache, s)) = (Inr fileCache', s1)"
  shows "(\<forall>k ls. fileCache' k = Some ls \<longrightarrow> ls = (case blobCache s1 k of None \<Rightarrow> [] | Some l \<Rightarrow> l))
       \<and> fileCache' key \<noteq> None
       \<and> (\<forall>k. fileCache k \<noteq> None \<longrightarrow> fileCache' k \<noteq> None \<and> blobCache s1 k = blobCache s k)"
proof (cases "fileCache key = None")
  case False
  with load have "fileCache' = fileCache" and "s1 = s"
    by simp_all
  with inv False show ?thesis
    by simp
next
  case absent: True
  obtain outcome s' where loaded: "loadBlobLines R W targetRepo blobSha s = (outcome, s')"
    by (cases "loadBlobLines R W targetRepo blobSha s")
  have cache: "case outcome of
           Inr fileLines \<Rightarrow> blobCache s' = (blobCache s)(key \<mapsto> fileLines)
         | Inl e \<Rightarrow> blobCache s' = blobCache s \<and> blobCache s key = None"
    unfolding key by (rule loadBlobLines_cache [OF loaded])
  show ?thesis
  proof (cases outcome)
    case (Inr fileLines)
    with load absent loaded have "fileCache' = fileCache(key \<mapsto> fileLines)" and "s1 = s'"
      by simp_all
    moreover from cache Inr have "blobCache s' = (blobCache s)(key \<mapsto> fileLines)"
      by simp
    ultimately show ?thesis
      using inv absent by auto
  next
    case (Inl e)
    show ?thesis
    proof (cases e)
      case Other
      with load absent loaded Inl show ?thesis
        by simp
    next
      case (Viewer v)
      with load absent loaded Inl have "fileCache' = fileCache(key \<mapsto> [])" and "s1 = s'"
        by simp_all
      moreover from cache Inl have "blobCache s' = blobCache s" and "blobCache s key = None"
        by simp_all
      ultimately show ?thesis
        using inv absent by auto
    qed
  qed
qed

lemma prepareItems_windows:
  assumes nonneg: "0 \<le> contextOrDefault context"
  shows "prepareItems R W target context found fileCache prepared s = (Inr hits, s') \<Longrightarrow>
     \<forall>k ls. fileCache k = Some ls \<longrightarrow> ls = (case blobCache s k of None \<Rightarrow> [] | Some l \<Rightarrow> l) \<Longrightarrow>
     (\<exists>new. hits = prepared @ new
         \<and> list_all2 (hitWindows R target (contextOrDefault context) s') found new)
     \<and> (\<forall>k. fileCache k \<noteq> None \<longrightarrow> blobCache s' k = blobCache s k)"
proof (induction found arbitrary: fileCache prepared s)
  case Nil
  then show ?case by simp
next
  case (Cons item rest)
  let ?targetRepo = "case split CHR ''/'' (i_repository_full_name item) of
                          [] \<Rightarrow> target
                        | [p0] \<Rightarrow> \<lparr>rt_owner = p0, rt_repo = rt_repo target\<rparr>
                        | p0 # p1 # ps \<Rightarrow> \<lparr>rt_owner = p0, rt_repo = p1\<rparr>"
  let ?key = "rt_owner ?targetRepo @ ''/'' @ rt_repo ?targetRepo @ '':'' @ i_sha item"
  let ?hit = "\<lambda>cache :: string \<rightharpoonup> string list.
       \<lparr>itemOwner = rt_owner ?targetRepo, itemRepo = rt_repo ?targetRepo,
        itemFullName = i_repository_full_name item,
        itemPath = i_path item, itemRef = i_sha item,
        itemLanguage = None, itemScore = i_score item,
        snippets = createSnippetsFromLines (case cache ?key of None \<Rightarrow> [] | Some ls \<Rightarrow> ls)
           (collectMatchLineIndices R
              (case i_text_matches item of None \<Rightarrow> [] | Some ms \<Rightarrow> ms)
              (case cache ?key of None \<Rightarrow> [] | Some ls \<Rightarrow> ls)) context,
        itemHtmlUrl = i_html_url item\<rparr>"
  define load where "load =
     (if fileCache ?key = None
      then (case loadBlobLines R W ?targetRepo (i_sha item) s of
              (Inl (Viewer e), s') \<Rightarrow> (Inr (fileCache(?key \<mapsto> [])), s')
            | (Inl Other, s') \<Rightarrow> (Inl Other, s')
            | (Inr fileLines, s') \<Rightarrow> (Inr (fileCache(?key \<mapsto> fileLines)), s'))
      else (Inr fileCache, s))"
  have unfolded: "prepareItems R W target context (item # rest) fileCache prepared s
      = (case load of
           (Inl e, s') \<Rightarrow> (Inl e, s')
         | (Inr fileCache', s') \<Rightarrow>
             prepareItems R W target context rest fileCache' (prepared @ [?hit fileCache']) s')"
    unfolding load_def by (simp only: prepareItems.simps Let_def)
  obtain outcome s1 where load: "load = (outcome, s1)"
    by (cases load)
  show ?case
  proof (cases outcome)
    case (Inl e)
    with Cons.prems(1) load show ?thesis
      unfolding unfolded by simp
  next
    case (Inr fileCache')
    with Cons.prems(1) load
    have rest: "prepareItems R W target context rest fileCache' (prepared @ [?hit fileCache']) s1
        = (Inr hits, s')"
      unfolding unfolded by simp
    from load Inr have "load = (Inr fileCache', s1)"
      by simp
    from cacheLoad_invariant [OF Cons.prems(2) refl this [unfolded load_def]]
    have inv': "\<forall>k ls. fileCache' k = Some ls
          \<longrightarrow> ls = (case blobCache s1 k of None \<Rightarrow> [] | Some l \<Rightarrow> l)"
      and present: "fileCache' ?key \<noteq> None"
      and kept: "\<forall>k. fileCache k \<noteq> None \<longrightarrow> fileCache' k \<noteq> None \<and> blobCache s1 k = blobCache s k"
      by blast+
    from Cons.IH [OF rest inv'] obtain new where
      hits: "hits = (prepared @ [?hit fileCache']) @ new"
      and windows: "list_all2 (hitWindows R target (contextOrDefault context) s') rest new"
      and kept': "\<forall>k. fileCache' k \<noteq> None \<longrightarrow> blobCache s' k = blobCache s1 k"
      by blast
    from present obtain ls where ls: "fileCache' ?key = Some ls"
      by blast
    with inv' have "ls = (case blobCache s1 ?key of None \<Rightarrow> [] | Some l \<Rightarrow> l)"
      by blast
    moreover from kept' present have "blobCache s' ?key = blobCache s1 ?key"
      by blast
    ultimately have lines: "(case fileCache' ?key of None \<Rightarrow> [] | Some ls \<Rightarrow> ls) = hitLines target s' item"
      using ls by (simp add: hitLines_def hitKey_def hitTarget_def)
    have "hitWindows R target (contextOrDefault context) s' item (?hit fileCache')"
      unfolding hitWindows_def lines
      using createSnippetsFromLines_windows [OF collectMatchLineIndices_bounds nonneg]
      by simp
    with windows have "list_all2 (hitWindows R target (contextOrDefault context) s')
        (item # rest) (?hit fileCache' # new)"
      by simp
    moreover from hits have "hits = prepared @ (?hit fileCache' # new)"
      by simp
    moreover from kept kept' have "\<forall>k. fileCache k \<noteq> None \<longrightarrow> blobCache s' k = blobCache s k"
      by simp
    ultimately show ?thesis
      by blast
  qed
qed

lemma prepareItems_returns:
  assumes "answersCode R W"
  shows "\<exists>hits s'. prepareItems R W target context found fileCache prepared s = (Inr hits, s')"
proof (induction found arbitrary: fileCache prepared s)
  case Nil
  show ?case by simp
next
  case (Cons item rest)
  let ?targetRepo = "case split CHR ''/'' (i_repository_full_name item) of
                          [] \<Rightarrow> target
                        | [p0] \<Rightarrow> \<lparr>rt_owner = p0, rt_repo = rt_repo target\<rparr>
                        | p0 # p1 # ps \<Rightarrow> \<lparr>rt_owner = p0, rt_repo = p1\<rparr>"
  let ?key = "rt_owner ?targetRepo @ ''/'' @ rt_repo ?targetRepo @ '':'' @ i_sha item"
  let ?hit = "\<lambda>cache :: string \<rightharpoonup> string list.
       \<lparr>itemOwner = rt_owner ?targetRepo, itemRepo = rt_repo ?targetRepo,
        itemFullName = i_repository_full_name item,
        itemPath = i_path item, itemRef = i_sha item,
        itemLanguage = None, itemScore = i_score item,
        snippets = createSnippetsFromLines (case cache ?key of None \<Rightarrow> [] | Some ls \<Rightarrow> ls)
           (collectMatchLineIndices R
              (case i_text_matches item of None \<Rightarrow> [] | Some ms \<Rightarrow> ms)
              (case cache ?key of None \<Rightarrow> [] | Some ls \<Rightarrow> ls)) context,
        itemHtmlUrl = i_html_url item\<rparr>"
  define load where "load =
     (if fileCache ?key = None
      then (case loadBlobLines R W ?targetRepo (i_sha item) s of
              (Inl (Viewer e), s') \<Rightarrow> (Inr (fileCache(?key \<mapsto> [])), s')
            | (Inl Other, s') \<Rightarrow> (Inl Other, s')
            | (Inr fileLines, s') \<Rightarrow> (Inr (fileCache(?key \<mapsto> fileLines)), s'))
      else (Inr fileCache, s))"
  have unfolded: "prepareItems R W target context (item # rest) fileCache prepared s
      = (case load of
           (Inl e, s') \<Rightarrow> (Inl e, s')
         | (Inr fileCache', s') \<Rightarrow>
             prepareItems R W target context rest fileCache' (prepared @ [?hit fileCache']) s')"
    unfolding load_def by (simp only: prepareItems.simps Let_def)
  have "\<exists>fileCache' s1. load = (Inr fileCache', s1)"
    using loadBlobLines_answered [OF assms, of ?targetRepo "i_sha item" s]
    unfolding load_def
    by (cases "loadBlobLines R W ?targetRepo (i_sha item) s")
      (auto split: sum.splits error.splits)
  then obtain fileCache' s1 where "load = (Inr fileCache', s1)"
    by blast
  with Cons.IH [of fileCache' "prepared @ [?hit fileCache']" s1] show ?case
    unfolding unfolded by simp
qed


lemma normalizeOffset_finite:
  "requested \<noteq> Some PosInfinity \<Longrightarrow> \<exists>n. normalizeOffset requested = enat n"
  by (cases requested rule: normalizeOffset.cases) (simp_all add: zero_enat_def)

text \<open>
  Claim C4, as amended. For a context \<open>c\<close> that is not negative (2 when the option is unset):
  \<^verbatim>\<open>searchCode\<close> with a finite offset returns, and returns a result when the pattern is not
  blank, the code search is answered and no blob request is rejected. Whatever it returns
  has one item per hit of the window \<open>[offset, offset + limit)\<close> of the collected hits, in
  order, and the snippets of an item are, in the ascending order of the match line indices
  of the hit's file, one snippet per index and never merged: the snippet of index \<open>i\<close> in a
  file of \<open>n\<close> lines has \<open>startLine = max 0 (i - c) + 1\<close>, \<open>endLine = min n (i + c + 1)\<close> and
  holds the file's lines at the 0-based positions \<open>max 0 (i - c) ..< min n (i + c + 1)\<close>.
\<close>

theorem searchCode_snippet_windows:
  assumes nonneg: "0 \<le> contextOrDefault (cs_context options)"
  shows "(cs_offset options \<noteq> Some PosInfinity \<longrightarrow>
            (\<exists>outcome s'. searchCode R W target options s = Some (outcome, s')
               \<and> (answersCode R W \<and> trim (cs_pattern options) \<noteq> []
                    \<longrightarrow> (\<exists>hits. outcome = Inr hits))))
       \<and> (\<forall>hits s'. searchCode R W target options s = Some (Inr hits, s') \<longrightarrow>
            (\<exists>collected afterSearch.
                collectItems (fetchCodeSearch W)
                  (SearchCodeRequest (codeQuery target (trim (cs_pattern options)) (cs_path options)))
                  (normalizeOffset (cs_offset options) + enat (normalizeLimit (cs_limit options) 30 100))
                  1 [] s = Some (Inr collected, afterSearch)
              \<and> list_all2 (hitWindows R target (contextOrDefault (cs_context options)) s')
                  (slice collected (normalizeOffset (cs_offset options))
                     (normalizeOffset (cs_offset options) + enat (normalizeLimit (cs_limit options) 30 100)))
                  hits))"
proof (intro conjI impI allI)
  let ?offset = "normalizeOffset (cs_offset options)"
  let ?limit = "normalizeLimit (cs_limit options) 30 100"
  let ?request = "SearchCodeRequest (codeQuery target (trim (cs_pattern options)) (cs_path options))"
  assume "cs_offset options \<noteq> Some PosInfinity"
  then obtain n where "?offset = enat n"
    using normalizeOffset_finite by blast
  then have finite: "?offset + enat ?limit = enat (n + ?limit)"
    by simp
  from collectItems_returns [of "fetchCodeSearch W" ?request "n + ?limit" 1 "[]" s]
  obtain found afterSearch where
    search: "collectItems (fetchCodeSearch W) ?request (?offset + enat ?limit) 1 [] s
        = Some (found, afterSearch)"
    and answered: "(\<forall>logged req. \<exists>body. fetchCodeSearch W logged req = Body body)
        \<longrightarrow> (\<exists>collected. found = Inr collected)"
    unfolding finite by blast
  show "\<exists>outcome s'. searchCode R W target options s = Some (outcome, s')
               \<and> (answersCode R W \<and> trim (cs_pattern options) \<noteq> []
                    \<longrightarrow> (\<exists>hits. outcome = Inr hits))"
  proof (cases "trim (cs_pattern options) = []")
    case True
    then show ?thesis
      by (simp add: searchCode_def Let_def)
  next
    case pattern: False
    show ?thesis
    proof (cases found)
      case (Inl e)
      with answered have "\<not> answersCode R W"
        by (auto simp: answersCode_def)
      with pattern search Inl show ?thesis
        by (simp add: searchCode_def Let_def)
    next
      case (Inr collected)
      show ?thesis
      proof (cases "collected = []")
        case True
        with pattern search Inr show ?thesis
          by (simp add: searchCode_def Let_def)
      next
        case False
        let ?prepared = "prepareItems R W target (cs_context options)
            (slice collected ?offset (?offset + enat ?limit)) Map.empty [] afterSearch"
        have run: "searchCode R W target options s = Some ?prepared"
          using pattern search Inr False by (simp add: searchCode_def Let_def)
        have "answersCode R W \<longrightarrow> (\<exists>hits. fst ?prepared = Inr hits)"
          using prepareItems_returns [of R W target "cs_context options"
              "slice collected ?offset (?offset + enat ?limit)" Map.empty "[]" afterSearch]
          by auto
        with run show ?thesis
          by (cases ?prepared) auto
      qed
    qed
  qed
next
  fix hits s'
  let ?offset = "normalizeOffset (cs_offset options)"
  let ?limit = "normalizeLimit (cs_limit options) 30 100"
  let ?request = "SearchCodeRequest (codeQuery target (trim (cs_pattern options)) (cs_path options))"
  assume returned: "searchCode R W target options s = Some (Inr hits, s')"
  then have pattern: "trim (cs_pattern options) \<noteq> []"
    by (auto simp: searchCode_def Let_def split: if_splits)
  with returned obtain collected afterSearch where
    search: "collectItems (fetchCodeSearch W) ?request (?offset + enat ?limit) 1 [] s
        = Some (Inr collected, afterSearch)"
    by (auto simp: searchCode_def Let_def split: option.splits sum.splits if_splits)
  have "list_all2 (hitWindows R target (contextOrDefault (cs_context options)) s')
          (slice collected ?offset (?offset + enat ?limit)) hits"
  proof (cases "collected = []")
    case True
    with pattern search returned have "hits = []"
      by (simp add: searchCode_def Let_def)
    with True show ?thesis
      by (cases ?offset) (simp_all add: slice_def)
  next
    case False
    with pattern search returned
    have "prepareItems R W target (cs_context options)
            (slice collected ?offset (?offset + enat ?limit)) Map.empty [] afterSearch = (Inr hits, s')"
      by (simp add: searchCode_def Let_def)
    from prepareItems_windows [OF nonneg this] show ?thesis
      by simp
  qed
  with search show "\<exists>collected afterSearch.
                collectItems (fetchCodeSearch W) ?request (?offset + enat ?limit) 1 [] s
                  = Some (Inr collected, afterSearch)
              \<and> list_all2 (hitWindows R target (contextOrDefault (cs_context options)) s')
                  (slice collected ?offset (?offset + enat ?limit)) hits"
    by blast
qed

text \<open>The windows of the unit test, through \<^verbatim>\<open>searchCode\<close>: a match on line index 3 of the
  eight lines with context 2 (default), 0 and 5.\<close>

theorem searchCode_snippet_windows_witness:
  "answersCode exampleRuntime (windowRemote ''line 4'')
   \<and> (\<exists>hits s' found.
         searchCode exampleRuntime (windowRemote ''line 4'') \<lparr>rt_owner = ''acme'', rt_repo = ''example''\<rparr>
           \<lparr>cs_pattern = ''line'', cs_path = None, cs_limit = None, cs_offset = None,
            cs_context = None\<rparr> initialState = Some (Inr hits, s')
       \<and> list_all2 (hitWindows exampleRuntime \<lparr>rt_owner = ''acme'', rt_repo = ''example''\<rparr> 2 s') found hits
       \<and> map snippets hits
           = [[\<lparr>startLine = 2, endLine = 6,
                snippetLines = [''line 2'', ''line 3'', ''line 4'', ''line 5'', ''line 6'']\<rparr>]])
   \<and> (\<exists>hits s' found.
         searchCode exampleRuntime (windowRemote ''line 4'') \<lparr>rt_owner = ''acme'', rt_repo = ''example''\<rparr>
           \<lparr>cs_pattern = ''line'', cs_path = None, cs_limit = None, cs_offset = None,
            cs_context = Some 0\<rparr> initialState = Some (Inr hits, s')
       \<and> list_all2 (hitWindows exampleRuntime \<lparr>rt_owner = ''acme'', rt_repo = ''example''\<rparr> 0 s') found hits
       \<and> map snippets hits = [[\<lparr>startLine = 4, endLine = 4, snippetLines = [''line 4'']\<rparr>]])
   \<and> (\<exists>hits s' found.
         searchCode exampleRuntime (windowRemote ''line 4'') \<lparr>rt_owner = ''acme'', rt_repo = ''example''\<rparr>
           \<lparr>cs_pattern = ''line'', cs_path = None, cs_limit = None, cs_offset = None,
            cs_context = Some 5\<rparr> initialState = Some (Inr hits, s')
       \<and> list_all2 (hitWindows exampleRuntime \<lparr>rt_owner = ''acme'', rt_repo = ''example''\<rparr> 5 s') found hits
       \<and> map snippets hits
           = [[\<lparr>startLine = 1, endLine = 8,
                snippetLines = [''line 1'', ''line 2'', ''line 3'', ''line 4'', ''line 5'',
                                ''line 6'', ''line 7'', ''line 8'']\<rparr>]])"
proof -
  let ?W = "windowRemote ''line 4''"
  let ?target = "\<lparr>rt_owner = ''acme'', rt_repo = ''example''\<rparr>"
  let ?options = "\<lambda>context. \<lparr>cs_pattern = ''line'', cs_path = None, cs_limit = None,
      cs_offset = None, cs_context = context\<rparr>"
  have answers: "answersCode exampleRuntime ?W"
    by (simp add: answersCode_def windowRemote_def silentRemote_def exampleRuntime_def)
  have pattern: "trim ''line'' \<noteq> []"
    by code_simp
  have windows: "\<exists>hits s' found.
        searchCode exampleRuntime ?W ?target (?options ctx) initialState = Some (Inr hits, s')
      \<and> list_all2 (hitWindows exampleRuntime ?target (contextOrDefault ctx) s') found hits"
    if "0 \<le> contextOrDefault ctx" for ctx
  proof -
    from searchCode_snippet_windows [of "?options ctx" exampleRuntime ?W ?target initialState]
      that answers pattern
    have produced: "\<exists>outcome s'. searchCode exampleRuntime ?W ?target (?options ctx) initialState
          = Some (outcome, s') \<and> (\<exists>hits. outcome = Inr hits)"
      and shaped: "\<And>hits s'. searchCode exampleRuntime ?W ?target (?options ctx) initialState
          = Some (Inr hits, s') \<Longrightarrow>
          \<exists>found. list_all2 (hitWindows exampleRuntime ?target (contextOrDefault ctx) s') found hits"
      by (simp, simp, blast)
    from produced obtain hits s' where
      "searchCode exampleRuntime ?W ?target (?options ctx) initialState = Some (Inr hits, s')"
      by blast
    with shaped [OF this] show ?thesis
      by blast
  qed
  have usual: "map_option (map_sum id (map snippets) \<circ> fst)
       (searchCode exampleRuntime ?W ?target (?options None) initialState)
     = Some (Inr [[\<lparr>startLine = 2, endLine = 6,
                snippetLines = [''line 2'', ''line 3'', ''line 4'', ''line 5'', ''line 6'']\<rparr>]])"
    by code_simp
  have narrow: "map_option (map_sum id (map snippets) \<circ> fst)
       (searchCode exampleRuntime ?W ?target (?options (Some 0)) initialState)
     = Some (Inr [[\<lparr>startLine = 4, endLine = 4, snippetLines = [''line 4'']\<rparr>]])"
    by code_simp
  have wide: "map_option (map_sum id (map snippets) \<circ> fst)
       (searchCode exampleRuntime ?W ?target (?options (Some 5)) initialState)
     = Some (Inr [[\<lparr>startLine = 1, endLine = 8,
                snippetLines = [''line 1'', ''line 2'', ''line 3'', ''line 4'', ''line 5'',
                                ''line 6'', ''line 7'', ''line 8'']\<rparr>]])"
    by code_simp
  have combine: "\<exists>hits s' found. run = Some (Inr hits, s') \<and> list_all2 (P s') found hits
        \<and> map snippets hits = expected"
    if "\<exists>hits s' found. run = Some (Inr hits, s') \<and> list_all2 (P s') found hits"
      and "map_option (map_sum id (map snippets) \<circ> fst) run = Some (Inr expected)"
    for run :: "((error + CodeSearchResultItem list) \<times> ViewerState) option"
      and P :: "ViewerState \<Rightarrow> GitHubCodeSearchItem \<Rightarrow> CodeSearchResultItem \<Rightarrow> bool"
      and expected
  proof -
    from that(1) obtain hits s' found where
      returned: "run = Some (Inr hits, s')" and shaped: "list_all2 (P s') found hits"
      by blast
    from that(2) returned have "map snippets hits = expected"
      by simp
    with returned shaped show ?thesis
      by blast
  qed
  from windows [of None] have "\<exists>hits s' found.
         searchCode exampleRuntime ?W ?target (?options None) initialState = Some (Inr hits, s')
       \<and> list_all2 (hitWindows exampleRuntime ?target 2 s') found hits"
    by (simp add: contextOrDefault_def)
  from combine [of _ "hitWindows exampleRuntime ?target 2", OF this usual]
  have first: "\<exists>hits s' found.
         searchCode exampleRuntime ?W ?target (?options None) initialState = Some (Inr hits, s')
       \<and> list_all2 (hitWindows exampleRuntime ?target 2 s') found hits
       \<and> map snippets hits
           = [[\<lparr>startLine = 2, endLine = 6,
                snippetLines = [''line 2'', ''line 3'', ''line 4'', ''line 5'', ''line 6'']\<rparr>]]" .
  from windows [of "Some 0"] have "\<exists>hits s' found.
         searchCode exampleRuntime ?W ?target (?options (Some 0)) initialState = Some (Inr hits, s')
       \<and> list_all2 (hitWindows exampleRuntime ?target 0 s') found hits"
    by (simp add: contextOrDefault_def)
  from combine [of _ "hitWindows exampleRuntime ?target 0", OF this narrow]
  have second: "\<exists>hits s' found.
         searchCode exampleRuntime ?W ?target (?options (Some 0)) initialState = Some (Inr hits, s')
       \<and> list_all2 (hitWindows exampleRuntime ?target 0 s') found hits
       \<and> map snippets hits = [[\<lparr>startLine = 4, endLine = 4, snippetLines = [''line 4'']\<rparr>]]" .
  from windows [of "Some 5"] have "\<exists>hits s' found.
         searchCode exampleRuntime ?W ?target (?options (Some 5)) initialState = Some (Inr hits, s')
       \<and> list_all2 (hitWindows exampleRuntime ?target 5 s') found hits"
    by (simp add: contextOrDefault_def)
  from combine [of _ "hitWindows exampleRuntime ?target 5", OF this wide]
  have third: "\<exists>hits s' found.
         searchCode exampleRuntime ?W ?target (?options (Some 5)) initialState = Some (Inr hits, s')
       \<and> list_all2 (hitWindows exampleRuntime ?target 5 s') found hits
       \<and> map snippets hits
           = [[\<lparr>startLine = 1, endLine = 8,
                snippetLines = [''line 1'', ''line 2'', ''line 3'', ''line 4'', ''line 5'',
                                ''line 6'', ''line 7'', ''line 8'']\<rparr>]]" .
  from answers first second third show ?thesis
    by (intro conjI)
qed

text \<open>
  The claim as stated fails for a negative context: with context \<open>-2\<close> and a match on line
  index 0 of the eight lines, \<^verbatim>\<open>start\<close> is 2 and \<^verbatim>\<open>endExclusive\<close> is \<open>-1\<close>, so that
  \<^verbatim>\<open>fileLines.slice(2, -1)\<close> holds lines 3 to 7 and \<^verbatim>\<open>Math.max(start + 1, endExclusive)\<close>
  gives the end line 3, where the window of the claim runs from line 3 to line \<open>-1\<close>.
\<close>

theorem searchCode_negative_context_counterexample:
  "map_option (map_sum id (map snippets) \<circ> fst)
     (searchCode exampleRuntime (windowRemote ''line 1'') \<lparr>rt_owner = ''acme'', rt_repo = ''example''\<rparr>
        \<lparr>cs_pattern = ''line'', cs_path = None, cs_limit = None, cs_offset = None,
         cs_context = Some (- 2)\<rparr> initialState)
     = Some (Inr [[\<lparr>startLine = 3, endLine = 3,
                    snippetLines = [''line 3'', ''line 4'', ''line 5'', ''line 6'', ''line 7'']\<rparr>]])
   \<and> snippetWindow [''line 1'', ''line 2'', ''line 3'', ''line 4'', ''line 5'', ''line 6'',
                     ''line 7'', ''line 8''] (- 2) 0
     = \<lparr>startLine = 3, endLine = - 1, snippetLines = []\<rparr>"
proof
  show "map_option (map_sum id (map snippets) \<circ> fst)
     (searchCode exampleRuntime (windowRemote ''line 1'') \<lparr>rt_owner = ''acme'', rt_repo = ''example''\<rparr>
        \<lparr>cs_pattern = ''line'', cs_path = None, cs_limit = None, cs_offset = None,
         cs_context = Some (- 2)\<rparr> initialState)
     = Some (Inr [[\<lparr>startLine = 3, endLine = 3,
                    snippetLines = [''line 3'', ''line 4'', ''line 5'', ''line 6'', ''line 7'']\<rparr>]])"
    by code_simp
  show "snippetWindow [''line 1'', ''line 2'', ''line 3'', ''line 4'', ''line 5'', ''line 6'',
                     ''line 7'', ''line 8''] (- 2) 0
     = \<lparr>startLine = 3, endLine = - 1, snippetLines = []\<rparr>"
    by (simp add: snippetWindow_def)
qed

subsection \<open>Discovery: the language filter\<close>



text \<open>
  Claim C1, as amended. With a language filter active, \<^verbatim>\<open>addRepository\<close> rejects a
  candidate of priority above 0 (search-sourced) whose language is absent or empty: the
  map \<^verbatim>\<open>collected\<close> is unchanged. A priority-0 candidate without language is not rejected
  by the language filter: it is treated as it would be with no language filter at all.
\<close>

theorem addRepository_language_rule:
  assumes "truthyOpt (languageFilter F)" and "\<not> truthyOpt (r_language candidate)"
  shows "if 0 < prio
         then addRepository R F candidate prio collected = collected
         else addRepository R F candidate prio collected
              = addRepository R (F\<lparr>languageFilter := None\<rparr>) candidate prio collected"
  using assms
  by (cases "mapRepoSummary candidate")
     (auto simp: addRepository_def mapRepoSummary_def Let_def truthyOpt_def split: if_splits)

theorem addRepository_language_rule_witness:
  "addRepository exampleRuntime
      \<lparr>patternFilter = None, organizationFilter = None, languageFilter = Some ''TypeScript''\<rparr>
      (emptyRepo\<lparr>r_full_name := Some ''acme/tool''\<rparr>) 1 [] = []
   \<and> addRepository exampleRuntime
      \<lparr>patternFilter = None, organizationFilter = None, languageFilter = Some ''TypeScript''\<rparr>
      (emptyRepo\<lparr>r_full_name := Some ''acme/tool''\<rparr>) 0 []
     = addRepository exampleRuntime
      \<lparr>patternFilter = None, organizationFilter = None, languageFilter = None\<rparr>
      (emptyRepo\<lparr>r_full_name := Some ''acme/tool''\<rparr>) 0 []"
  using addRepository_language_rule [of "\<lparr>patternFilter = None, organizationFilter = None, languageFilter = Some ''TypeScript''\<rparr>"
        "emptyRepo\<lparr>r_full_name := Some ''acme/tool''\<rparr>" 1 exampleRuntime "[]"]
     addRepository_language_rule [of "\<lparr>patternFilter = None, organizationFilter = None, languageFilter = Some ''TypeScript''\<rparr>"
        "emptyRepo\<lparr>r_full_name := Some ''acme/tool''\<rparr>" 0 exampleRuntime "[]"]
  by (simp add: truthyOpt_def truthy_def emptyRepo_def)

text \<open>
  The claim as stated fails: with the language filter \<^verbatim>\<open>TypeScript\<close>, the priority-0
  candidate \<^verbatim>\<open>acme/tool\<close> without language is returned, and the search candidate
  \<^verbatim>\<open>public/thing\<close> without language is not.
\<close>

theorem searchRepositories_language_counterexample:
  "map_option fst (searchRepositories exampleRuntime languageRemote
      \<lparr>sp_pattern = None, sp_organization = None, sp_language = Some ''TypeScript'',
       sp_limit = None, sp_offset = None\<rparr> initialState)
   = Some (Inr [\<lparr>name = ''tool'', fullName = ''acme/tool'', description = None,
           language = None, stars = 0, forks = 0, isPrivate = False,
           htmlUrl = ''https://github.com/acme/tool'',
           defaultBranch = ''main'', topics = [], visibility = None\<rparr>])"
  by code_simp

subsection \<open>Discovery: deduplication\<close>




subsection \<open>Discovery: ordering and slicing\<close>

lemma compareCandidates_le_iff:
  "compareCandidates R a b \<le> 0 \<longleftrightarrow> specifiedOrder R a b"
  by (auto simp: compareCandidates_def specifiedOrder_def scoreOrZero_def Let_def)

lemma mset_insertBy: "mset (insertBy cmp x xs) = add_mset x (mset xs)"
  by (induction xs) simp_all

lemma mset_sortBy: "mset (sortBy cmp xs) = mset xs"
  by (induction xs) (simp_all add: sortBy_def mset_insertBy)

lemma set_insertBy: "set (insertBy cmp x xs) = insert x (set xs)"
  using mset_insertBy [of cmp x xs] by (metis set_mset_add_mset_insert set_mset_mset)

lemma sorted_insertBy:
  assumes total: "\<And>a b. cmp a b \<le> 0 \<or> cmp b a \<le> 0"
    and trans: "\<And>a b c. cmp a b \<le> 0 \<Longrightarrow> cmp b c \<le> 0 \<Longrightarrow> cmp a c \<le> 0"
    and "sorted_wrt (\<lambda>a b. cmp a b \<le> 0) xs"
  shows "sorted_wrt (\<lambda>a b. cmp a b \<le> 0) (insertBy cmp x xs)"
  using assms(3)
proof (induction xs)
  case Nil
  then show ?case by simp
next
  case (Cons y ys)
  show ?case
  proof (cases "cmp x y \<le> 0")
    case True
    then have "\<forall>z \<in> set ys. cmp x z \<le> 0"
      using Cons.prems trans by auto
    with True Cons.prems show ?thesis by simp
  next
    case False
    then have "cmp y x \<le> 0" using total by blast
    with False Cons show ?thesis by (auto simp: set_insertBy)
  qed
qed

lemma sorted_sortBy:
  assumes "\<And>a b. cmp a b \<le> 0 \<or> cmp b a \<le> 0"
    and "\<And>a b c. cmp a b \<le> 0 \<Longrightarrow> cmp b c \<le> 0 \<Longrightarrow> cmp a c \<le> 0"
  shows "sorted_wrt (\<lambda>a b. cmp a b \<le> 0) (sortBy cmp xs)"
proof (induction xs)
  case Nil
  then show ?case by (simp add: sortBy_def)
next
  case (Cons x xs)
  have "sortBy cmp (x # xs) = insertBy cmp x (sortBy cmp xs)"
    by (simp add: sortBy_def)
  with Cons show ?case
    using sorted_insertBy [of cmp "sortBy cmp xs" x] assms by simp
qed

lemma specifiedOrder_total:
  assumes "\<forall>a b. localeCompare R a b \<le> 0 \<or> localeCompare R b a \<le> 0"
  shows "specifiedOrder R a b \<or> specifiedOrder R b a"
  using assms unfolding specifiedOrder_def
  by (metis linorder_less_linear)

lemma specifiedOrder_trans:
  assumes "\<forall>a b c. localeCompare R a b \<le> 0 \<and> localeCompare R b c \<le> 0 \<longrightarrow> localeCompare R a c \<le> 0"
    and "specifiedOrder R a b" and "specifiedOrder R b c"
  shows "specifiedOrder R a c"
proof -
  have lc: "localeCompare R (fullName (summary a)) (fullName (summary b)) \<le> 0 \<Longrightarrow>
        localeCompare R (fullName (summary b)) (fullName (summary c)) \<le> 0 \<Longrightarrow>
        localeCompare R (fullName (summary a)) (fullName (summary c)) \<le> 0"
    using assms(1) by blast
  show ?thesis
    using assms(2,3) lc unfolding specifiedOrder_def
    by (smt (verit) order.strict_trans)
qed


lemma stars_descending:
  assumes "sorted_wrt (specifiedOrder R) ordered"
    and "\<forall>c \<in> set ordered. priority c = p"
    and "distinct (map candStars ordered)"
  shows "sorted_wrt (\<lambda>a b. candStars b < candStars a) ordered"
  using assms
proof (induction ordered)
  case Nil
  then show ?case by simp
next
  case (Cons a rest)
  have "candStars b < candStars a" if "b \<in> set rest" for b
  proof -
    from that Cons.prems(1) have "specifiedOrder R a b" by simp
    moreover from that Cons.prems(2) have "priority a = priority b" by simp
    moreover from that Cons.prems(3) have "candStars a \<noteq> candStars b" by auto
    ultimately show ?thesis by (auto simp: specifiedOrder_def)
  qed
  with Cons show ?case by simp
qed

text \<open>When pagination ends, each collector returns: every further page is requested with
  one more request in the log, and once the log has \<open>bound\<close> entries no page asks for another.
  When moreover every request is answered, what is returned is not an error.\<close>

lemma answersDiscovery_page:
  "answersDiscovery W \<Longrightarrow> \<exists>page. fetchRepoPage W logged req = Body page"
  by (simp add: answersDiscovery_def)

lemma answersDiscovery_search:
  "answersDiscovery W \<Longrightarrow> \<exists>body. fetchRepoSearch W logged req = Body body"
  by (simp add: answersDiscovery_def)

lemma paginationEnds_page:
  assumes "paginationEnds W bound" and "bound \<le> length logged"
    and "fetchRepoPage W logged req = Body page"
  shows "\<not> truthyOpt (nextLink page)"
proof -
  from assms(1,2) have "case fetchRepoPage W logged req of
           Body page \<Rightarrow> \<not> truthyOpt (nextLink page)
         | _ \<Rightarrow> True"
    unfolding paginationEnds_def by blast
  with assms(3) show ?thesis by simp
qed

lemma paginationEnds_search:
  assumes "paginationEnds W bound" and "bound \<le> length logged"
    and "fetchRepoSearch W logged req = Body body"
  shows "length (case body of None \<Rightarrow> [] | Some xs \<Rightarrow> xs) < 100"
proof -
  from assms(1,2) have "case fetchRepoSearch W logged req of
             Body body \<Rightarrow> length (case body of None \<Rightarrow> [] | Some xs \<Rightarrow> xs) < 100
           | _ \<Rightarrow> True"
    unfolding paginationEnds_def by blast
  with assms(3) show ?thesis by simp
qed

lemma collectPages_returns:
  assumes "paginationEnds W bound"
  shows "\<exists>outcome collected' s'.
           collectPages R W F maxIntermediate url collected s = Some (outcome, collected', s')
         \<and> (answersDiscovery W \<longrightarrow> outcome = Inr ())"
proof (induction "bound - length (requests s)" arbitrary: url collected s rule: less_induct)
  case less
  let ?answer = "fetchRepoPage W (requests s) url"
  let ?s' = "s\<lparr>requests := requests s @ [url]\<rparr>"
  show ?case
  proof (cases ?answer)
    case FetchRejected
    then have "\<not> answersDiscovery W"
      using answersDiscovery_page [of W "requests s" url] by auto
    with FetchRejected show ?thesis
      by (subst collectPages.simps) (simp add: ghFetch_def)
  next
    case NotOk
    then have "\<not> answersDiscovery W"
      using answersDiscovery_page [of W "requests s" url] by auto
    with NotOk show ?thesis
      by (subst collectPages.simps) (simp add: ghFetch_def)
  next
    case (Body page)
    obtain collected' capped where
      added: "addPage R F maxIntermediate 0 (pageItems page) collected = (collected', capped)"
      by (cases "addPage R F maxIntermediate 0 (pageItems page) collected")
    show ?thesis
    proof (cases "\<not> capped \<and> truthyOpt (nextLink page)")
      case False
      with Body added show ?thesis
        by (subst collectPages.simps) (auto simp: ghFetch_def)
    next
      case True
      have "length (requests s) < bound"
      proof (rule ccontr)
        assume "\<not> length (requests s) < bound"
        then have "bound \<le> length (requests s)" by simp
        from paginationEnds_page [OF assms this Body] have "\<not> truthyOpt (nextLink page)" .
        with True show False by simp
      qed
      then have smaller: "bound - length (requests ?s') < bound - length (requests s)"
        by simp
      have step: "collectPages R W F maxIntermediate url collected s
          = collectPages R W F maxIntermediate (LinkRequest (orEmpty (nextLink page))) collected' ?s'"
        using Body added True
        by (subst collectPages.simps) (simp add: ghFetch_def)
      from less [OF smaller] show ?thesis
        unfolding step by blast
    qed
  qed
qed

lemma searchPages_returns:
  assumes "paginationEnds W bound"
  shows "\<exists>outcome collected' s'.
           searchPages R W F maxIntermediate query page collected s = Some (outcome, collected', s')
         \<and> (answersDiscovery W \<longrightarrow> outcome = Inr ())"
proof (induction "bound - length (requests s)" arbitrary: page collected s rule: less_induct)
  case less
  let ?req = "SearchRepositoriesRequest query page"
  let ?answer = "fetchRepoSearch W (requests s) ?req"
  let ?s' = "s\<lparr>requests := requests s @ [?req]\<rparr>"
  show ?case
  proof (cases "enat (length collected) < maxIntermediate")
    case False
    then show ?thesis
      by (subst searchPages.simps) simp
  next
    case below: True
    show ?thesis
    proof (cases ?answer)
      case FetchRejected
      then have "\<not> answersDiscovery W"
        using answersDiscovery_search [of W "requests s" ?req] by auto
      with below FetchRejected show ?thesis
        by (subst searchPages.simps) (simp add: ghFetch_def)
    next
      case NotOk
      then have "\<not> answersDiscovery W"
        using answersDiscovery_search [of W "requests s" ?req] by auto
      with below NotOk show ?thesis
        by (subst searchPages.simps) (simp add: ghFetch_def)
    next
      case (Body body)
      let ?items = "case body of None \<Rightarrow> [] | Some xs \<Rightarrow> xs"
      show ?thesis
      proof (cases "length ?items = 0 \<or> length ?items < 100")
        case True
        with below Body show ?thesis
          by (subst searchPages.simps) (auto simp: ghFetch_def Let_def)
      next
        case False
        have "length (requests s) < bound"
        proof (rule ccontr)
          assume "\<not> length (requests s) < bound"
          then have "bound \<le> length (requests s)" by simp
          from paginationEnds_search [OF assms this Body] have "length ?items < 100" .
          with False show False by simp
        qed
        then have smaller: "bound - length (requests ?s') < bound - length (requests s)"
          by simp
        have step: "searchPages R W F maxIntermediate query page collected s
            = searchPages R W F maxIntermediate query (page + 1)
                (fst (addPage R F maxIntermediate 1 ?items collected)) ?s'"
          using Body below False
          by (subst searchPages.simps) (simp add: ghFetch_def Let_def)
        from less [OF smaller] show ?thesis
          unfolding step by blast
      qed
    qed
  qed
qed


lemma collectOrgRepositories_returns:
  assumes "paginationEnds W bound"
  shows "\<exists>outcome collected' s'.
           collectOrgRepositories R W F maxIntermediate org collected s = Some (outcome, collected', s')
         \<and> (answersDiscovery W \<longrightarrow> outcome = Inr ())"
  unfolding collectOrgRepositories_def by (rule collectPages_returns [OF assms])

lemma collectUserRepositories_returns:
  assumes "paginationEnds W bound"
  shows "\<exists>outcome collected' s'.
           collectUserRepositories R W F maxIntermediate collected s = Some (outcome, collected', s')
         \<and> (answersDiscovery W \<longrightarrow> outcome = Inr ())"
  unfolding collectUserRepositories_def
  using collectPages_returns [OF assms, of R F maxIntermediate UserReposRequest collected s]
  by simp

lemma collectSearchResults_returns:
  assumes "paginationEnds W bound"
  shows "\<exists>outcome collected' s'.
           collectSearchResults R W F maxIntermediate collected s = Some (outcome, collected', s')
         \<and> (answersDiscovery W \<longrightarrow> outcome = Inr ())"
  unfolding collectSearchResults_def by (rule searchPages_returns [OF assms])

lemma collectCandidates_returns:
  assumes "paginationEnds W bound"
  shows "\<exists>outcome s'. collectCandidates R W params s = Some (outcome, s')
         \<and> (answersDiscovery W \<longrightarrow> (\<exists>collected. outcome = Inr collected))"
proof -
  let ?F = "searchFilters params"
  let ?toCollect = "normalizeOffset (sp_offset params) + enat (normalizeLimit (sp_limit params) 30 100)"
  let ?max = "?toCollect + 100"
  let ?first = "if truthyOpt (organizationFilter ?F)
               then collectOrgRepositories R W ?F ?max (orEmpty (organizationFilter ?F)) [] s
               else (case collectUserRepositories R W ?F ?max [] s of
                       None \<Rightarrow> None
                     | Some (Inl (Viewer e), collected, s') \<Rightarrow> Some (Inr (), collected, s')
                     | Some r \<Rightarrow> Some r)"
  have "\<exists>outcome collected s'. ?first = Some (outcome, collected, s')
          \<and> (answersDiscovery W \<longrightarrow> outcome = Inr ())"
  proof (cases "truthyOpt (organizationFilter ?F)")
    case True
    with collectOrgRepositories_returns [OF assms, of R ?F ?max "orEmpty (organizationFilter ?F)" "[]" s]
    show ?thesis by simp
  next
    case False
    from collectUserRepositories_returns [OF assms, of R ?F ?max "[]" s]
    obtain outcome collected s' where
      "collectUserRepositories R W ?F ?max [] s = Some (outcome, collected, s')"
      and "answersDiscovery W \<longrightarrow> outcome = Inr ()"
      by blast
    with False show ?thesis
      by (auto split: sum.splits error.splits)
  qed
  then obtain outcome collected s' where
    first: "?first = Some (outcome, collected, s')"
    and firstOk: "answersDiscovery W \<longrightarrow> outcome = Inr ()"
    by blast
  show ?thesis
  proof (cases outcome)
    case (Inl e)
    with first firstOk show ?thesis
      unfolding collectCandidates_def Let_def by simp
  next
    case (Inr u)
    show ?thesis
    proof (cases "enat (length collected) < ?toCollect")
      case False
      with first Inr show ?thesis
        unfolding collectCandidates_def Let_def by simp
    next
      case True
      from collectSearchResults_returns [OF assms, of R ?F ?max collected s']
      obtain outcome' collected' s'' where
        second: "collectSearchResults R W ?F ?max collected s' = Some (outcome', collected', s'')"
        and secondOk: "answersDiscovery W \<longrightarrow> outcome' = Inr ()"
        by blast
      from first Inr True second secondOk show ?thesis
        unfolding collectCandidates_def Let_def by (cases outcome') simp_all
    qed
  qed
qed

lemma searchRepositories_returns:
  assumes "paginationEnds W bound"
  shows "\<exists>outcome s'. searchRepositories R W params s = Some (outcome, s')
         \<and> (answersDiscovery W \<longrightarrow> (\<exists>result. outcome = Inr result))"
proof -
  from collectCandidates_returns [OF assms, of R params s]
  obtain outcome s' where
    collected: "collectCandidates R W params s = Some (outcome, s')"
    and ok: "answersDiscovery W \<longrightarrow> (\<exists>collected. outcome = Inr collected)"
    by blast
  then show ?thesis
    unfolding searchRepositories_def Let_def by (cases outcome) auto
qed

text \<open>The sort and the slice of \<^verbatim>\<open>searchRepositories\<close> give a sorted slice.\<close>

lemma sortBy_isSortedSlice:
  assumes total: "\<forall>a b. localeCompare R a b \<le> 0 \<or> localeCompare R b a \<le> 0"
    and trans: "\<forall>a b c. localeCompare R a b \<le> 0 \<and> localeCompare R b c \<le> 0
                  \<longrightarrow> localeCompare R a c \<le> 0"
  shows "isSortedSlice R params merged
           (map summary (slice (sortBy (compareCandidates R) merged)
              (normalizeOffset (sp_offset params))
              (normalizeOffset (sp_offset params) + enat (normalizeLimit (sp_limit params) 30 100))))"
proof -
  let ?ordered = "sortBy (compareCandidates R) merged"
  have perm: "mset ?ordered = mset merged"
    by (rule mset_sortBy)
  have "sorted_wrt (\<lambda>a b. compareCandidates R a b \<le> 0) ?ordered"
  proof (rule sorted_sortBy)
    show "compareCandidates R a b \<le> 0 \<or> compareCandidates R b a \<le> 0" for a b
      using specifiedOrder_total [OF total] by (simp add: compareCandidates_le_iff)
    show "compareCandidates R a b \<le> 0 \<Longrightarrow> compareCandidates R b c \<le> 0
        \<Longrightarrow> compareCandidates R a c \<le> 0" for a b c
      using specifiedOrder_trans [OF trans] by (simp add: compareCandidates_le_iff)
  qed
  then have ordered: "sorted_wrt (specifiedOrder R) ?ordered"
    by (simp add: compareCandidates_le_iff)
  have window: "map summary (slice ?ordered
              (normalizeOffset (sp_offset params))
              (normalizeOffset (sp_offset params) + enat (normalizeLimit (sp_limit params) 30 100)))
            = map summary
              (case normalizeOffset (sp_offset params) of
                 \<infinity> \<Rightarrow> []
               | enat offset \<Rightarrow> take (normalizeLimit (sp_limit params) 30 100) (drop offset ?ordered))"
    by (cases "normalizeOffset (sp_offset params)") (simp_all add: slice_def)
  have stars: "(\<exists>p. \<forall>c \<in> set ?ordered. priority c = p) \<and> distinct (map candStars ?ordered)
              \<longrightarrow> sorted_wrt (\<lambda>a b. candStars b < candStars a) ?ordered"
    using stars_descending [OF ordered] by blast
  from perm ordered window stars show ?thesis
    unfolding isSortedSlice_def by blast
qed

text \<open>
  Claim C3. Let \<^verbatim>\<open>localeCompare\<close> be a consistent comparator (total and transitive). When
  pagination ends, \<^verbatim>\<open>searchRepositories\<close> returns, and returns a result when every listing
  and search request is answered. Whatever result it returns holds the summaries of the
  window \<open>[offset, offset + limit)\<close> of an arrangement of the merged candidates that is
  ordered by priority ascending, then stars descending, then score descending (0 when
  absent), then full name ascending; the window is empty for an offset of \<^verbatim>\<open>Infinity\<close>.
  When all candidates have the same priority and distinct star counts, the arrangement is
  strictly descending in stars.
\<close>

theorem searchRepositories_sorted_slice:
  assumes total: "\<forall>a b. localeCompare R a b \<le> 0 \<or> localeCompare R b a \<le> 0"
    and trans: "\<forall>a b c. localeCompare R a b \<le> 0 \<and> localeCompare R b c \<le> 0
                  \<longrightarrow> localeCompare R a c \<le> 0"
  shows "(paginationEnds W bound \<longrightarrow>
            (\<exists>outcome s'. searchRepositories R W params s = Some (outcome, s')
               \<and> (answersDiscovery W \<longrightarrow> (\<exists>result. outcome = Inr result))))
       \<and> (\<forall>result s'. searchRepositories R W params s = Some (Inr result, s') \<longrightarrow>
            (\<exists>collected. collectCandidates R W params s = Some (Inr collected, s')
               \<and> isSortedSlice R params (map snd collected) result))"
proof (intro conjI impI allI)
  assume "paginationEnds W bound"
  then show "\<exists>outcome s'. searchRepositories R W params s = Some (outcome, s')
               \<and> (answersDiscovery W \<longrightarrow> (\<exists>result. outcome = Inr result))"
    by (rule searchRepositories_returns)
next
  fix result s'
  assume returned: "searchRepositories R W params s = Some (Inr result, s')"
  then obtain collected where
    collected: "collectCandidates R W params s = Some (Inr collected, s')"
    and result: "result = map summary
        (slice (sortBy (compareCandidates R) (map snd collected))
           (normalizeOffset (sp_offset params))
           (normalizeOffset (sp_offset params) + enat (normalizeLimit (sp_limit params) 30 100)))"
    by (auto simp: searchRepositories_def Let_def split: option.splits sum.splits prod.splits)
  from collected sortBy_isSortedSlice [OF total trans, of params "map snd collected"]
  show "\<exists>collected. collectCandidates R W params s = Some (Inr collected, s')
               \<and> isSortedSlice R params (map snd collected) result"
    unfolding result by blast
qed

text \<open>The example runtime's collation is a consistent comparator, and a run with three
  accessible repositories, limit 2 and offset 1.\<close>

lemma compareUnits_total: "compareUnits a b \<le> 0 \<or> compareUnits b a \<le> 0"
  by (induction a b rule: compareUnits.induct) auto

lemma compareUnits_trans:
  "compareUnits a b \<le> 0 \<Longrightarrow> compareUnits b c \<le> 0 \<Longrightarrow> compareUnits a c \<le> 0"
proof (induction a b arbitrary: c rule: compareUnits.induct)
  case 1
  then show ?case by simp
next
  case (2 b bs)
  then show ?case by (cases c) simp_all
next
  case (3 a as)
  then show ?case by simp
next
  case (4 a as b bs)
  show ?case
  proof (cases c)
    case Nil
    with 4 show ?thesis by simp
  next
    case (Cons d ds)
    with "4.prems" "4.IH" [of ds] show ?thesis
      by (auto split: if_splits)
  qed
qed

lemma orderingRemote_run:
  "searchRepositories exampleRuntime orderingRemote
      \<lparr>sp_pattern = None, sp_organization = None, sp_language = None,
       sp_limit = Some (Finite 2), sp_offset = Some (Finite 1)\<rparr> initialState
   = Some (Inr (map (\<lambda>(n, k). \<lparr>name = n, fullName = n, description = None,
           language = None, stars = k, forks = 0, isPrivate = False,
           htmlUrl = ''https://github.com/'' @ n,
           defaultBranch = ''main'', topics = [], visibility = None\<rparr>)
           [(''acme/mid'', 7), (''acme/low'', 1)]),
          initialState\<lparr>requests := [UserReposRequest]\<rparr>)"
  by (simp add: searchRepositories_def collectCandidates_def collectUserRepositories_def collectSearchResults_def
     collectPages.simps searchPages.simps orderingRemote_def silentRemote_def exampleRuntime_def emptyRepo_def initialState_def
     ghFetch_def searchFilters_def truthyOpt_def truthy_def orEmpty_def addRepository_def mapRepoSummary_def
     searchQuery_def slice_def sortBy_def compareCandidates_def Let_def plus_enat_def one_enat_def zero_enat_def numeral_eq_enat)


lemma orderingRemote_collected:
  "collectCandidates exampleRuntime orderingRemote
      \<lparr>sp_pattern = None, sp_organization = None, sp_language = None,
       sp_limit = Some (Finite 2), sp_offset = Some (Finite 1)\<rparr> initialState
   = Some (Inr (map (\<lambda>(n, k). (n, \<lparr>summary = \<lparr>name = n, fullName = n, description = None,
           language = None, stars = k, forks = 0, isPrivate = False,
           htmlUrl = ''https://github.com/'' @ n,
           defaultBranch = ''main'', topics = [], visibility = None\<rparr>,
           priority = 0, candStars = k, candScore = None\<rparr>))
           [(''acme/low'', 1), (''acme/high'', 50), (''acme/mid'', 7)]),
          initialState\<lparr>requests := [UserReposRequest]\<rparr>)"
  by (simp add: collectCandidates_def collectUserRepositories_def collectSearchResults_def
     collectPages.simps searchPages.simps orderingRemote_def silentRemote_def exampleRuntime_def emptyRepo_def initialState_def
     ghFetch_def searchFilters_def truthyOpt_def truthy_def orEmpty_def addRepository_def mapRepoSummary_def
     searchQuery_def Let_def plus_enat_def one_enat_def zero_enat_def numeral_eq_enat)

theorem searchRepositories_sorted_slice_witness:
  "paginationEnds orderingRemote 0 \<and> answersDiscovery orderingRemote
   \<and> (\<exists>collected ordered.
        searchRepositories exampleRuntime orderingRemote
          \<lparr>sp_pattern = None, sp_organization = None, sp_language = None,
           sp_limit = Some (Finite 2), sp_offset = Some (Finite 1)\<rparr> initialState
        = Some (Inr (map summary (take 2 (drop 1 ordered))),
                initialState\<lparr>requests := [UserReposRequest]\<rparr>)
      \<and> map (\<lambda>r. (fullName r, stars r)) (map summary (take 2 (drop 1 ordered)))
          = [(''acme/mid'', 7), (''acme/low'', 1)]
      \<and> collectCandidates exampleRuntime orderingRemote
          \<lparr>sp_pattern = None, sp_organization = None, sp_language = None,
           sp_limit = Some (Finite 2), sp_offset = Some (Finite 1)\<rparr> initialState
        = Some (Inr collected, initialState\<lparr>requests := [UserReposRequest]\<rparr>)
      \<and> map fst collected = [''acme/low'', ''acme/high'', ''acme/mid'']
      \<and> mset ordered = mset (map snd collected)
      \<and> sorted_wrt (specifiedOrder exampleRuntime) ordered
      \<and> sorted_wrt (\<lambda>a b. candStars b < candStars a) ordered)"
proof -
  have total: "\<forall>a b. localeCompare exampleRuntime a b \<le> 0 \<or> localeCompare exampleRuntime b a \<le> 0"
    by (simp add: exampleRuntime_def compareUnits_total)
  have trans: "\<forall>a b c. localeCompare exampleRuntime a b \<le> 0 \<and> localeCompare exampleRuntime b c \<le> 0
                  \<longrightarrow> localeCompare exampleRuntime a c \<le> 0"
    using compareUnits_trans by (auto simp: exampleRuntime_def)
  let ?params = "\<lparr>sp_pattern = None, sp_organization = None, sp_language = None,
         sp_limit = Some (Finite 2), sp_offset = Some (Finite 1)\<rparr>"
  let ?after = "initialState\<lparr>requests := [UserReposRequest]\<rparr>"
  have ends: "paginationEnds orderingRemote 0"
    by (simp add: paginationEnds_def orderingRemote_def silentRemote_def truthyOpt_def)
  have answers: "answersDiscovery orderingRemote"
    by (simp add: answersDiscovery_def orderingRemote_def silentRemote_def)
  from searchRepositories_sorted_slice [OF total trans, of orderingRemote 0 ?params initialState]
  have produced: "\<exists>outcome s'. searchRepositories exampleRuntime orderingRemote ?params initialState
             = Some (outcome, s') \<and> (\<exists>result. outcome = Inr result)"
    and slice: "\<And>result s'. searchRepositories exampleRuntime orderingRemote ?params initialState
             = Some (Inr result, s') \<Longrightarrow>
            (\<exists>collected. collectCandidates exampleRuntime orderingRemote ?params initialState
                 = Some (Inr collected, s')
               \<and> isSortedSlice exampleRuntime ?params (map snd collected) result)"
    using ends answers by blast+
  from produced obtain result s' where
    run: "searchRepositories exampleRuntime orderingRemote ?params initialState = Some (Inr result, s')"
    by blast
  with orderingRemote_run have s': "s' = ?after"
    and result: "map (\<lambda>r. (fullName r, stars r)) result = [(''acme/mid'', 7), (''acme/low'', 1)]"
    by simp_all
  from slice [OF run] obtain collected ordered where
    c: "collectCandidates exampleRuntime orderingRemote ?params initialState = Some (Inr collected, s')"
    and m: "mset ordered = mset (map snd collected)"
    and o: "sorted_wrt (specifiedOrder exampleRuntime) ordered"
    and r: "result = map summary (take 2 (drop 1 ordered))"
    and d: "(\<exists>p. \<forall>c \<in> set ordered. priority c = p) \<and> distinct (map candStars ordered)
              \<longrightarrow> sorted_wrt (\<lambda>a b. candStars b < candStars a) ordered"
    unfolding isSortedSlice_def by auto
  from c orderingRemote_collected have keys: "map fst collected = [''acme/low'', ''acme/high'', ''acme/mid'']"
    and prios: "\<forall>c \<in> set (map snd collected). priority c = 0"
    and starsOf: "map candStars (map snd collected) = [1, 50, 7]"
    by auto
  from m have "set ordered = set (map snd collected)"
    by (rule mset_eq_setD)
  with prios have onePriority: "\<exists>p. \<forall>c \<in> set ordered. priority c = p"
    by blast
  from m have "mset (map candStars ordered) = mset (map candStars (map snd collected))"
    by (metis mset_map)
  then have "distinct (map candStars ordered) \<longleftrightarrow> distinct (map candStars (map snd collected))"
    by (rule mset_eq_imp_distinct_iff)
  with starsOf have "distinct (map candStars ordered)"
    by simp
  with onePriority d have descending: "sorted_wrt (\<lambda>a b. candStars b < candStars a) ordered"
    by blast
  from run r s' have run': "searchRepositories exampleRuntime orderingRemote ?params initialState
        = Some (Inr (map summary (take 2 (drop 1 ordered))), ?after)"
    by simp
  from result r have result': "map (\<lambda>r. (fullName r, stars r)) (map summary (take 2 (drop 1 ordered)))
          = [(''acme/mid'', 7), (''acme/low'', 1)]"
    by simp
  from c s' have c': "collectCandidates exampleRuntime orderingRemote ?params initialState
        = Some (Inr collected, ?after)"
    by simp
  from run' result' c' keys m o descending ends answers show ?thesis
    by (intro conjI exI [of _ collected] exI [of _ ordered])
qed

subsection \<open>Reading files: the size guard\<close>

lemma replaceCRLF_no_CR: "CHR 0x0D \<notin> set cs \<Longrightarrow> replaceCRLF cs = cs"
  by (induction cs rule: replaceCRLF.induct) auto

lemma split_no_separator: "sep \<notin> set cs \<Longrightarrow> split sep cs = [cs]"
  by (induction cs) auto

lemma char_of_97: "char_of (97 :: nat) = CHR ''a''"
  by code_simp

text \<open>
  Claim C5. For a response that is a file with content, whose decoded buffer is longer than
  204800 bytes: \<^verbatim>\<open>readFile\<close> without a range fails with the size-guard error, and
  \<^verbatim>\<open>readFile\<close> on the same response with a range succeeds and returns the extracted
  range (with line numbers when asked).
\<close>

theorem readFile_size_guard:
  assumes fetched: "fetchContents W (requests s)
             (ContentsRequest target (encodeContentPath filePath)
                (if truthyOpt ref then ref else None)) = Body entry"
    and content: "truthyOpt (c_content entry)"
    and isFile: "c_type entry = Some ''file''"
    and decoded: "bufferFrom R (orEmpty (c_content entry))
             (case c_encoding entry of None \<Rightarrow> ''base64'' | Some enc \<Rightarrow> enc) = Some buffer"
    and large: "length buffer > 204800"
  shows "fst (readFile R W target filePath
               \<lparr>readRef = ref, readRange = None, includeLineNumbers = numbered\<rparr> s)
           = Inl (Viewer (FileTooLarge (length buffer) filePath))
       \<and> fst (readFile R W target filePath
               \<lparr>readRef = ref, readRange = Some r, includeLineNumbers = numbered\<rparr> s)
           = Inr \<lparr>readPath = filePath, readResultRef = ref, readResultRange = Some r,
                  lines = (if numbered
                           then addLineNumbers (extractRange (decodeLines R buffer) r) (rangeStart r)
                           else extractRange (decodeLines R buffer) r)\<rparr>"
  using assms by (cases "truthyOpt ref") (simp_all add: readFile_def ghFetch_def Let_def)

text \<open>A file of 204801 bytes on one line.\<close>

theorem readFile_size_guard_witness:
  "fst (readFile exampleRuntime (fileRemote (fileEntry (replicate 204801 CHR ''a''))) 
          \<lparr>rt_owner = ''acme'', rt_repo = ''example''\<rparr> ''file.txt''
          \<lparr>readRef = None, readRange = None, includeLineNumbers = False\<rparr> initialState)
     = Inl (Viewer (FileTooLarge 204801 ''file.txt''))
   \<and> fst (readFile exampleRuntime (fileRemote (fileEntry (replicate 204801 CHR ''a'')))
          \<lparr>rt_owner = ''acme'', rt_repo = ''example''\<rparr> ''file.txt''
          \<lparr>readRef = None, readRange = Some \<lparr>rangeStart = 1, rangeEnd = 1\<rparr>, includeLineNumbers = False\<rparr> initialState)
     = Inr \<lparr>readPath = ''file.txt'', readResultRef = None,
            readResultRange = Some \<lparr>rangeStart = 1, rangeEnd = 1\<rparr>,
            lines = [replicate 204801 CHR ''a'']\<rparr>"
proof -
  let ?entry = "fileEntry (replicate 204801 CHR ''a'')"
  have fetched: "fetchContents (fileRemote ?entry) (requests initialState)
      (ContentsRequest \<lparr>rt_owner = ''acme'', rt_repo = ''example''\<rparr> (encodeContentPath ''file.txt'')
         (if truthyOpt None then None else None)) = Body ?entry"
    by (simp add: fileRemote_def)
  have content: "truthyOpt (c_content ?entry)"
    by (simp add: fileEntry_def truthyOpt_def truthy_def)
  have isFile: "c_type ?entry = Some ''file''"
    by (simp add: fileEntry_def)
  have decoded: "bufferFrom exampleRuntime (orEmpty (c_content ?entry))
      (case c_encoding ?entry of None \<Rightarrow> ''base64'' | Some enc \<Rightarrow> enc) = Some (replicate 204801 97)"
    by (simp add: exampleRuntime_def fileEntry_def orEmpty_def)
  have large: "length (replicate 204801 (97 :: 8 word)) > 204800"
    by simp
  have fileLines: "decodeLines exampleRuntime (replicate 204801 97) = [replicate 204801 CHR ''a'']"
    by (simp add: decodeLines_def exampleRuntime_def char_of_97 replaceCRLF_no_CR split_no_separator)
  have window: "extractRange [replicate 204801 CHR ''a''] \<lparr>rangeStart = 1, rangeEnd = 1\<rparr>
      = [replicate 204801 CHR ''a'']"
    by (simp add: extractRange_def extractLoop.simps)
  from readFile_size_guard [OF fetched content isFile decoded large,
      where numbered = False and r = "\<lparr>rangeStart = 1, rangeEnd = 1\<rparr>"]
  show ?thesis
    by (simp add: fileLines window)
qed

subsection \<open>Reading files: ranges and line numbers\<close>

lemma byte_roundtrip: "char_of (unat (of_nat (of_char c) :: 8 word)) = c"
  by (simp add: unat_of_nat)

lemma example_bufferFrom:
  "bufferFrom exampleRuntime content encoding = Some (map (\<lambda>c. of_nat (of_char c)) content)"
  by (simp add: exampleRuntime_def)

lemma example_utf8ToString:
  "utf8ToString exampleRuntime (map (\<lambda>c. of_nat (of_char c)) content) = content"
  by (simp add: exampleRuntime_def byte_roundtrip o_def)

lemma extractLoop_window:
  "1 \<le> lineNumber \<Longrightarrow>
   extractLoop fileLines lastLine lineNumber acc
     = acc @ map (\<lambda>i. fileLines ! i)
               [nat (lineNumber - 1) ..< nat (min lastLine (int (length fileLines)))]"
proof (induction fileLines lastLine lineNumber acc rule: extractLoop.induct)
  case (1 fileLines lastLine lineNumber acc)
  show ?case
  proof (cases "lineNumber \<le> lastLine \<and> lineNumber - 1 < int (length fileLines)")
    case True
    then have below: "nat (lineNumber - 1) < nat (min lastLine (int (length fileLines)))"
      using "1.prems" by linarith
    have next_index: "Suc (nat (lineNumber - 1)) = nat (lineNumber + 1 - 1)"
      using "1.prems" by linarith
    have "extractLoop fileLines lastLine lineNumber acc
        = extractLoop fileLines lastLine (lineNumber + 1) (acc @ [fileLines ! nat (lineNumber - 1)])"
      using True "1.prems" by (subst extractLoop.simps) (simp add: Let_def)
    also have "\<dots> = (acc @ [fileLines ! nat (lineNumber - 1)]) @ map (\<lambda>i. fileLines ! i)
               [nat (lineNumber + 1 - 1) ..< nat (min lastLine (int (length fileLines)))]"
      using True "1.prems" "1.IH" [of "lineNumber - 1"] by simp
    also have "\<dots> = acc @ map (\<lambda>i. fileLines ! i)
               [nat (lineNumber - 1) ..< nat (min lastLine (int (length fileLines)))]"
      using below by (simp add: upt_conv_Cons next_index)
    finally show ?thesis .
  next
    case False
    then have "nat (min lastLine (int (length fileLines))) \<le> nat (lineNumber - 1)"
      by linarith
    then have "[nat (lineNumber - 1) ..< nat (min lastLine (int (length fileLines)))] = []"
      by simp
    moreover have "extractLoop fileLines lastLine lineNumber acc = acc"
      using False by (subst extractLoop.simps) (auto simp: Let_def)
    ultimately show ?thesis by simp
  qed
qed

lemma addLineNumbers_window:
  "addLineNumbers (map (\<lambda>i. fileLines ! i) [a ..< b]) (int a + 1)
     = map (\<lambda>i. replicate (6 - length (toString (int i + 1))) CHR '' '' @ toString (int i + 1)
                  @ '' '' @ fileLines ! i) [a ..< b]"
  by (rule nth_equalityI)
     (simp_all add: addLineNumbers_def nth_enumerate_eq padStart_def add.commute add.left_commute)

text \<open>
  Claim C6. For a file response decoded into \<open>n\<close> lines and a range with \<open>1 \<le> start\<close>,
  \<^verbatim>\<open>readFile\<close> succeeds and returns the lines at the 0-based positions
  \<open>start - 1 ..< min end n\<close>, that is the 1-based lines \<open>start\<close> to \<open>min end n\<close>, without
  error when \<open>end\<close> exceeds \<open>n\<close>. With \<^verbatim>\<open>includeLineNumbers\<close> the line at position \<open>i\<close> is
  prefixed with the decimal numeral of \<open>i + 1\<close>, padded on the left with spaces to width
  6, and one space.
\<close>

theorem readFile_range_window:
  assumes fetched: "fetchContents W (requests s)
             (ContentsRequest target (encodeContentPath filePath)
                (if truthyOpt ref then ref else None)) = Body entry"
    and content: "truthyOpt (c_content entry)"
    and isFile: "c_type entry = Some ''file''"
    and decoded: "bufferFrom R (orEmpty (c_content entry))
             (case c_encoding entry of None \<Rightarrow> ''base64'' | Some enc \<Rightarrow> enc) = Some buffer"
    and start: "1 \<le> rangeStart r"
  shows "fst (readFile R W target filePath
               \<lparr>readRef = ref, readRange = Some r, includeLineNumbers = numbered\<rparr> s)
           = Inr \<lparr>readPath = filePath, readResultRef = ref, readResultRange = Some r,
                  lines =
                    map (\<lambda>i. if numbered
                              then replicate (6 - length (toString (int i + 1))) CHR '' ''
                                   @ toString (int i + 1) @ '' '' @ decodeLines R buffer ! i
                              else decodeLines R buffer ! i)
                      [nat (rangeStart r - 1) ..<
                       nat (min (rangeEnd r) (int (length (decodeLines R buffer))))]\<rparr>"
proof -
  let ?fileLines = "decodeLines R buffer"
  let ?a = "nat (rangeStart r - 1)"
  let ?b = "nat (min (rangeEnd r) (int (length ?fileLines)))"
  have selected: "extractRange ?fileLines r = map (\<lambda>i. ?fileLines ! i) [?a ..< ?b]"
    using start by (simp add: extractRange_def extractLoop_window)
  have offset: "rangeStart r = int ?a + 1"
    using start by simp
  have numbered: "addLineNumbers (map (\<lambda>i. ?fileLines ! i) [?a ..< ?b]) (rangeStart r)
      = map (\<lambda>i. replicate (6 - length (toString (int i + 1))) CHR '' '' @ toString (int i + 1)
                  @ '' '' @ ?fileLines ! i) [?a ..< ?b]"
    by (subst offset) (rule addLineNumbers_window)
  have "fst (readFile R W target filePath
               \<lparr>readRef = ref, readRange = Some r, includeLineNumbers = numbered\<rparr> s)
           = Inr \<lparr>readPath = filePath, readResultRef = ref, readResultRange = Some r,
                  lines = (if numbered then addLineNumbers (extractRange ?fileLines r) (rangeStart r)
                           else extractRange ?fileLines r)\<rparr>"
    using fetched content isFile decoded
    by (cases "truthyOpt ref") (simp_all add: readFile_def ghFetch_def Let_def)
  then show ?thesis
    by (cases numbered) (simp_all add: selected numbered)
qed

text \<open>The file of the unit test, three lines and a final newline: lines 2 to 3 with
  numbers, and lines 3 to 99 without (the file ends at its fourth, empty line).\<close>

theorem readFile_range_window_witness:
  "fst (readFile exampleRuntime
          (fileRemote (fileEntry ''first line\<newline>second line\<newline>third line\<newline>''))
          \<lparr>rt_owner = ''acme'', rt_repo = ''example''\<rparr> ''file.txt''
          \<lparr>readRef = None, readRange = Some \<lparr>rangeStart = 2, rangeEnd = 3\<rparr>,
           includeLineNumbers = True\<rparr> initialState)
     = Inr \<lparr>readPath = ''file.txt'', readResultRef = None,
            readResultRange = Some \<lparr>rangeStart = 2, rangeEnd = 3\<rparr>,
            lines = [''     2 second line'', ''     3 third line'']\<rparr>
   \<and> fst (readFile exampleRuntime
          (fileRemote (fileEntry ''first line\<newline>second line\<newline>third line\<newline>''))
          \<lparr>rt_owner = ''acme'', rt_repo = ''example''\<rparr> ''file.txt''
          \<lparr>readRef = None, readRange = Some \<lparr>rangeStart = 3, rangeEnd = 99\<rparr>,
           includeLineNumbers = False\<rparr> initialState)
     = Inr \<lparr>readPath = ''file.txt'', readResultRef = None,
            readResultRange = Some \<lparr>rangeStart = 3, rangeEnd = 99\<rparr>,
            lines = [''third line'', []]\<rparr>"
proof -
  let ?text = "''first line\<newline>second line\<newline>third line\<newline>''"
  let ?entry = "fileEntry ?text"
  let ?buffer = "map (\<lambda>c. of_nat (of_char c) :: 8 word) ?text"
  have fetched: "fetchContents (fileRemote ?entry) (requests initialState)
      (ContentsRequest \<lparr>rt_owner = ''acme'', rt_repo = ''example''\<rparr> (encodeContentPath ''file.txt'')
         (if truthyOpt None then None else None)) = Body ?entry"
    by (simp add: fileRemote_def)
  have content: "truthyOpt (c_content ?entry)"
    by (simp add: fileEntry_def truthyOpt_def truthy_def)
  have isFile: "c_type ?entry = Some ''file''"
    by (simp add: fileEntry_def)
  have decoded: "bufferFrom exampleRuntime (orEmpty (c_content ?entry))
      (case c_encoding ?entry of None \<Rightarrow> ''base64'' | Some enc \<Rightarrow> enc) = Some ?buffer"
    by (simp only: example_bufferFrom)
       (simp add: fileEntry_def orEmpty_def)
  have fileLines: "decodeLines exampleRuntime ?buffer
      = [''first line'', ''second line'', ''third line'', []]"
    unfolding decodeLines_def example_utf8ToString by simp
  have digits: "toString 2 = ''2''" "toString 3 = ''3''"
    by code_simp+
  from readFile_range_window [OF fetched content isFile decoded,
      where r = "\<lparr>rangeStart = 2, rangeEnd = 3\<rparr>" and numbered = True]
    readFile_range_window [OF fetched content isFile decoded,
      where r = "\<lparr>rangeStart = 3, rangeEnd = 99\<rparr>" and numbered = False]
  show ?thesis
    unfolding fileLines by (simp add: upt_rec digits numeral_eq_Suc)
qed

subsection \<open>Glob: the tree cache\<close>

lemma getDefaultBranch_result:
  assumes "getDefaultBranch W target s = (Inr ref, s')"
  shows "repoDefaults s' (rt_owner target @ ''/'' @ rt_repo target) = Some ref"
    and "truthy ref"
    and "treeCache s' = treeCache s"
    and "filter isTreeRequest (requests s') = filter isTreeRequest (requests s)"
  using assms
  by (auto simp: getDefaultBranch_def ghFetch_def Let_def truthyOpt_def orEmpty_def
           split: if_splits option.splits response.splits)

lemma getDefaultBranch_cached:
  assumes "repoDefaults s (rt_owner target @ ''/'' @ rt_repo target) = Some ref" and "truthy ref"
  shows "getDefaultBranch W target s = (Inr ref, s)"
  using assms by (simp add: getDefaultBranch_def Let_def truthyOpt_def orEmpty_def)

lemma fetchTree_result:
  assumes "fetchTree W target ref s = (Inr body, s')"
  shows "s' = s\<lparr>requests := requests s @ [TreeRequest target ref]\<rparr>"
  using assms
  by (auto simp: fetchTree_def ghFetch_def Let_def split: if_splits response.splits)

text \<open>The part of \<^verbatim>\<open>globFiles\<close> after the ref is known.\<close>

lemma globFiles_explicit_ref:
  assumes "globFiles R W target pat (Some ref) s0 = (Inr r1, s1)"
  shows "globFiles R W target pat (Some ref) s1 = (Inr r1, s1)"
    and "repoDefaults s1 = repoDefaults s0"
    and "treeCache s0 = Map.empty \<Longrightarrow>
         length (filter isTreeRequest (requests s1)) = Suc (length (filter isTreeRequest (requests s0)))"
  using assms
  by (auto simp: globFiles_def Let_def dest!: fetchTree_result
           split: if_splits option.splits prod.splits sum.splits)

lemma globFiles_resolve:
  "globFiles R W target pat None s =
     (case getDefaultBranch W target s of
        (Inl e, s1) \<Rightarrow> (Inl e, s1)
      | (Inr ref, s1) \<Rightarrow> globFiles R W target pat (Some ref) s1)"
  by (simp add: globFiles_def split: prod.splits sum.splits)

text \<open>
  Claim C7. After a call of \<^verbatim>\<open>globFiles\<close> that returned, a second call with the same
  repository, pattern and ref option returns the same result (matches and truncated flag
  included) and leaves the state as it is: it issues no request at all, whatever the
  remote would answer. When the tree cache was empty before the first call, the two calls
  together issue exactly one request to the tree endpoint.
\<close>

theorem globFiles_second_call_cached:
  assumes "globFiles R W target pat optionsRef s0 = (Inr r1, s1)"
  shows "globFiles R W target pat optionsRef s1 = (Inr r1, s1)
       \<and> (treeCache s0 = Map.empty \<longrightarrow>
            length (filter isTreeRequest (requests s1))
              = Suc (length (filter isTreeRequest (requests s0))))"
proof (cases optionsRef)
  case (Some ref)
  with assms show ?thesis
    using globFiles_explicit_ref [of R W target pat ref s0 r1 s1] by simp
next
  case None
  with assms obtain ref sa where
    branch: "getDefaultBranch W target s0 = (Inr ref, sa)"
    and rest: "globFiles R W target pat (Some ref) sa = (Inr r1, s1)"
    by (auto simp: globFiles_resolve split: prod.splits sum.splits)
  note b = getDefaultBranch_result [OF branch]
  note g = globFiles_explicit_ref [OF rest]
  have "repoDefaults s1 (rt_owner target @ ''/'' @ rt_repo target) = Some ref"
    using b(1) g(2) by simp
  then have "getDefaultBranch W target s1 = (Inr ref, s1)"
    using b(2) by (rule getDefaultBranch_cached)
  then have again: "globFiles R W target pat None s1 = (Inr r1, s1)"
    using g(1) by (simp add: globFiles_resolve)
  have "treeCache s0 = Map.empty \<longrightarrow>
            length (filter isTreeRequest (requests s1))
              = Suc (length (filter isTreeRequest (requests s0)))"
    using g(3) b(3,4) by simp
  with again None show ?thesis by simp
qed

text \<open>Two calls without a ref on a fresh viewer: one request for the default branch and
  one for the tree, both in the first call.\<close>

theorem globFiles_second_call_cached_witness:
  "fst (globFiles exampleRuntime treeRemote \<lparr>rt_owner = ''acme'', rt_repo = ''example''\<rparr>
          ''README.md'' None initialState)
     = Inr \<lparr>globPattern = ''README.md'', globRef = ''main'', globMatches = [''README.md''],
            globTruncated = True\<rparr>
   \<and> globFiles exampleRuntime treeRemote \<lparr>rt_owner = ''acme'', rt_repo = ''example''\<rparr>
       ''README.md'' None
       (snd (globFiles exampleRuntime treeRemote \<lparr>rt_owner = ''acme'', rt_repo = ''example''\<rparr>
          ''README.md'' None initialState))
     = globFiles exampleRuntime treeRemote \<lparr>rt_owner = ''acme'', rt_repo = ''example''\<rparr>
          ''README.md'' None initialState
   \<and> length (filter isTreeRequest
        (requests (snd (globFiles exampleRuntime treeRemote \<lparr>rt_owner = ''acme'', rt_repo = ''example''\<rparr>
          ''README.md'' None initialState)))) = 1"
proof -
  let ?target = "\<lparr>rt_owner = ''acme'', rt_repo = ''example''\<rparr>"
  let ?first = "globFiles exampleRuntime treeRemote ?target ''README.md'' None initialState"
  let ?r1 = "\<lparr>globPattern = ''README.md'', globRef = ''main'', globMatches = [''README.md''],
            globTruncated = True\<rparr>"
  have result: "fst ?first = Inr ?r1"
    by (simp add: globFiles_def getDefaultBranch_def fetchTree_def ghFetch_def treeRemote_def
          silentRemote_def exampleRuntime_def initialState_def truthyOpt_def truthy_def
          orEmpty_def Let_def)
  then have first: "?first = (Inr ?r1, snd ?first)"
    by (metis prod.collapse)
  have fresh: "treeCache initialState = Map.empty"
    by (simp add: initialState_def)
  have logged: "requests initialState = []"
    by (simp add: initialState_def)
  from globFiles_second_call_cached [OF first] fresh logged result first
  show ?thesis by simp
qed

subsection \<open>Validation before any request\<close>

lemma split_not_empty: "split sep cs \<noteq> []"
  by (induction cs) (auto split: list.splits)

lemma split_single: "split sep cs = [a] \<longleftrightarrow> cs = a \<and> sep \<notin> set a"
proof (induction cs arbitrary: a)
  case Nil
  then show ?case by auto
next
  case (Cons c cs)
  show ?case
  proof (cases "c = sep")
    case True
    then show ?thesis by (auto simp: split_not_empty)
  next
    case False
    obtain l ls where parts: "split sep cs = l # ls"
      using split_not_empty [of sep cs] by (cases "split sep cs") simp_all
    have unfold: "split sep (c # cs) = (c # l) # ls"
      using False parts by simp
    have ih: "split sep cs = [l] \<longleftrightarrow> cs = l \<and> sep \<notin> set l"
      by (rule Cons.IH)
    show ?thesis
    proof
      assume "split sep (c # cs) = [a]"
      with unfold have "a = c # l" and "ls = []" by simp_all
      with parts ih False show "c # cs = a \<and> sep \<notin> set a" by simp
    next
      assume r: "c # cs = a \<and> sep \<notin> set a"
      then have "sep \<notin> set cs" by auto
      then have "split sep cs = [cs]" using Cons.IH [of cs] by simp
      with False r show "split sep (c # cs) = [a]" by auto
    qed
  qed
qed

lemma split_prefix: "sep \<notin> set a \<Longrightarrow> split sep (a @ sep # rest) = a # split sep rest"
  by (induction a) auto

lemma split_pairD:
  "split sep cs = [a, b] \<Longrightarrow> cs = a @ sep # b \<and> sep \<notin> set a \<and> sep \<notin> set b"
proof (induction cs arbitrary: a)
  case Nil
  then show ?case by simp
next
  case (Cons c cs)
  show ?case
  proof (cases "c = sep")
    case True
    with Cons.prems have "a = []" and "split sep cs = [b]" by simp_all
    then have "cs = b" and "sep \<notin> set b" by (simp_all add: split_single)
    with True \<open>a = []\<close> show ?thesis by simp
  next
    case False
    obtain l ls where parts: "split sep cs = l # ls"
      using split_not_empty [of sep cs] by (cases "split sep cs") simp_all
    have "split sep (c # cs) = (c # l) # ls"
      using False parts by simp
    then have "(c # l) # ls = [a, b]"
      using Cons.prems by (simp only:)
    then have "a = c # l" and "ls = [b]" by simp_all
    with parts have "split sep cs = [l, b]" by simp
    then have "cs = l @ sep # b \<and> sep \<notin> set l \<and> sep \<notin> set b" by (rule Cons.IH)
    with False \<open>a = c # l\<close> show ?thesis by simp
  qed
qed

lemma split_pair:
  "split sep cs = [a, b] \<longleftrightarrow> cs = a @ sep # b \<and> sep \<notin> set a \<and> sep \<notin> set b"
proof
  assume "split sep cs = [a, b]"
  then show "cs = a @ sep # b \<and> sep \<notin> set a \<and> sep \<notin> set b" by (rule split_pairD)
next
  assume r: "cs = a @ sep # b \<and> sep \<notin> set a \<and> sep \<notin> set b"
  then have "split sep cs = a # split sep b" by (simp add: split_prefix)
  moreover from r have "split sep b = [b]" by (simp add: split_single)
  ultimately show "split sep cs = [a, b]" by simp
qed

text \<open>
  Claim C8. \<^verbatim>\<open>parseRepo\<close> accepts a slug exactly when it is two non-empty parts without
  \<^verbatim>\<open>/\<close> joined by one \<^verbatim>\<open>/\<close>, and rejects every other slug; it is a pure function and
  issues no request. \<^verbatim>\<open>compareCommits\<close> with an empty base, or with an empty head, and
  \<^verbatim>\<open>searchCode\<close> with a pattern that is empty after trimming fail with their validation
  error and return the state as it was: the log of requests has not grown.
\<close>

theorem validation_before_requests:
  "(if \<exists>a b. slug = a @ CHR ''/'' # b \<and> a \<noteq> [] \<and> b \<noteq> []
         \<and> CHR ''/'' \<notin> set a \<and> CHR ''/'' \<notin> set b
    then \<exists>a b. slug = a @ CHR ''/'' # b \<and> parseRepo slug = Inr \<lparr>rt_owner = a, rt_repo = b\<rparr>
    else parseRepo slug = Inl (InvalidSlug slug))
   \<and> (baseRef = [] \<longrightarrow>
        compareCommits W target baseRef headRef includePatches s = (Inl (Viewer BaseRequired), s))
   \<and> (baseRef \<noteq> [] \<and> headRef = [] \<longrightarrow>
        compareCommits W target baseRef headRef includePatches s = (Inl (Viewer HeadRequired), s))
   \<and> (trim (cs_pattern options) = [] \<longrightarrow>
        searchCode R W target options s = Some (Inl (Viewer EmptyPattern), s))"
proof -
  have repo: "(if \<exists>a b. slug = a @ CHR ''/'' # b \<and> a \<noteq> [] \<and> b \<noteq> []
         \<and> CHR ''/'' \<notin> set a \<and> CHR ''/'' \<notin> set b
    then \<exists>a b. slug = a @ CHR ''/'' # b \<and> parseRepo slug = Inr \<lparr>rt_owner = a, rt_repo = b\<rparr>
    else parseRepo slug = Inl (InvalidSlug slug))"
  proof (cases "\<exists>a b. slug = a @ CHR ''/'' # b \<and> a \<noteq> [] \<and> b \<noteq> []
         \<and> CHR ''/'' \<notin> set a \<and> CHR ''/'' \<notin> set b")
    case True
    then obtain a b where ab: "slug = a @ CHR ''/'' # b" "a \<noteq> []" "b \<noteq> []"
        "CHR ''/'' \<notin> set a" "CHR ''/'' \<notin> set b"
      by blast
    then have "split CHR ''/'' slug = [a, b]"
      by (simp add: split_pair)
    with ab have "parseRepo slug = Inr \<lparr>rt_owner = a, rt_repo = b\<rparr>"
      by (simp add: parseRepo_def truthy_def)
    with True ab(1) show ?thesis by auto
  next
    case False
    have "parseRepo slug = Inl (InvalidSlug slug)"
    proof (cases "\<exists>p0 p1. split CHR ''/'' slug = [p0, p1]")
      case True
      then obtain p0 p1 where parts: "split CHR ''/'' slug = [p0, p1]" by blast
      then have "slug = p0 @ CHR ''/'' # p1" "CHR ''/'' \<notin> set p0" "CHR ''/'' \<notin> set p1"
        by (simp_all add: split_pair)
      with False have "p0 = [] \<or> p1 = []" by blast
      with parts show ?thesis by (auto simp: parseRepo_def truthy_def)
    next
      case noPair: False
      show ?thesis
      proof (cases "split CHR ''/'' slug")
        case Nil
        then show ?thesis by (simp add: parseRepo_def)
      next
        case (Cons p0 rest)
        show ?thesis
        proof (cases rest)
          case Nil
          with Cons show ?thesis by (simp add: parseRepo_def)
        next
          case (Cons p1 more)
          with noPair \<open>split CHR ''/'' slug = p0 # rest\<close> obtain p2 others where "more = p2 # others"
            by (cases more) auto
          with Cons \<open>split CHR ''/'' slug = p0 # rest\<close> show ?thesis
            by (simp add: parseRepo_def)
        qed
      qed
    qed
    with False show ?thesis by simp
  qed
  have comparison: "(baseRef = [] \<longrightarrow>
        compareCommits W target baseRef headRef includePatches s = (Inl (Viewer BaseRequired), s))
   \<and> (baseRef \<noteq> [] \<and> headRef = [] \<longrightarrow>
        compareCommits W target baseRef headRef includePatches s = (Inl (Viewer HeadRequired), s))"
    by (simp add: compareCommits_def truthy_def)
  have search: "trim (cs_pattern options) = [] \<longrightarrow>
        searchCode R W target options s = Some (Inl (Viewer EmptyPattern), s)"
    by (simp add: searchCode_def Let_def)
  from repo comparison search show ?thesis by blast
qed

text \<open>Slugs with no, two and a leading separator; an empty base, an empty head and a
  blank pattern, each on a fresh viewer whose log stays empty.\<close>

theorem validation_before_requests_witness:
  "parseRepo ''acme'' = Inl (InvalidSlug ''acme'')
   \<and> parseRepo ''acme/example/extra'' = Inl (InvalidSlug ''acme/example/extra'')
   \<and> parseRepo ''/example'' = Inl (InvalidSlug ''/example'')
   \<and> parseRepo ''acme/example'' = Inr \<lparr>rt_owner = ''acme'', rt_repo = ''example''\<rparr>
   \<and> compareCommits silentRemote \<lparr>rt_owner = ''acme'', rt_repo = ''example''\<rparr> [] ''feature'' None initialState
       = (Inl (Viewer BaseRequired), initialState)
   \<and> compareCommits silentRemote \<lparr>rt_owner = ''acme'', rt_repo = ''example''\<rparr> ''main'' [] None initialState
       = (Inl (Viewer HeadRequired), initialState)
   \<and> searchCode exampleRuntime silentRemote \<lparr>rt_owner = ''acme'', rt_repo = ''example''\<rparr>
        \<lparr>cs_pattern = ''   '', cs_path = None, cs_limit = None, cs_offset = None, cs_context = None\<rparr>
        initialState
       = Some (Inl (Viewer EmptyPattern), initialState)
   \<and> requests initialState = []"
proof -
  have blank: "trim ''   '' = []"
    by (simp add: trim_def isWhiteSpace_def)
  from validation_before_requests [where slug = "''acme''" and baseRef = "[]" and headRef = "''feature''"
      and W = silentRemote and target = "\<lparr>rt_owner = ''acme'', rt_repo = ''example''\<rparr>"
      and includePatches = None and s = initialState and R = exampleRuntime
      and options = "\<lparr>cs_pattern = ''   '', cs_path = None, cs_limit = None, cs_offset = None, cs_context = None\<rparr>"]
    validation_before_requests [where slug = "''acme/example''" and baseRef = "''main''" and headRef = "[]"
      and W = silentRemote and target = "\<lparr>rt_owner = ''acme'', rt_repo = ''example''\<rparr>"
      and includePatches = None and s = initialState and R = exampleRuntime
      and options = "\<lparr>cs_pattern = ''   '', cs_path = None, cs_limit = None, cs_offset = None, cs_context = None\<rparr>"]
  show ?thesis
    by (simp add: blank parseRepo_def truthy_def initialState_def)
qed

subsection \<open>Compare: patches\<close>

text \<open>
  Claim C9. When base and head are given and the compare endpoint answers with a payload,
  \<^verbatim>\<open>compareCommits\<close> returns one record per file of the payload, in order; with
  \<^verbatim>\<open>includePatches\<close> true each record carries the payload's patch unchanged, and with
  \<^verbatim>\<open>includePatches\<close> false or unset no record carries a patch, whatever the payload held.
\<close>

theorem compareCommits_patches:
  assumes "baseRef \<noteq> []" and "headRef \<noteq> []"
    and "fetchCompare W (requests s) (CompareRequest target baseRef headRef) = Body payload"
  shows "\<exists>result s'.
           compareCommits W target baseRef headRef includePatches s = (Inr result, s')
         \<and> map filename (changedFiles result)
             = map f_filename (case files payload of None \<Rightarrow> [] | Some fs \<Rightarrow> fs)
         \<and> map patch (changedFiles result)
             = (if includePatches = Some True
                then map f_patch (case files payload of None \<Rightarrow> [] | Some fs \<Rightarrow> fs)
                else map (\<lambda>file. None) (case files payload of None \<Rightarrow> [] | Some fs \<Rightarrow> fs))"
  using assms
  by (simp add: compareCommits_def ghFetch_def truthy_def Let_def o_def)


text \<open>The payload of the unit test, read with patches, with \<^verbatim>\<open>includePatches: false\<close> and
  with the option unset.\<close>

theorem compareCommits_patches_witness:
  "map patch (changedFiles (projr (fst (compareCommits compareRemote
        \<lparr>rt_owner = ''acme'', rt_repo = ''example''\<rparr> ''main'' ''feature'' (Some True) initialState))))
     = [Some ''@@ -1,1 +1,1 @@'']
   \<and> map patch (changedFiles (projr (fst (compareCommits compareRemote
        \<lparr>rt_owner = ''acme'', rt_repo = ''example''\<rparr> ''main'' ''feature'' (Some False) initialState))))
     = [None]
   \<and> map patch (changedFiles (projr (fst (compareCommits compareRemote
        \<lparr>rt_owner = ''acme'', rt_repo = ''example''\<rparr> ''main'' ''feature'' None initialState))))
     = [None]
   \<and> isl (fst (compareCommits compareRemote
        \<lparr>rt_owner = ''acme'', rt_repo = ''example''\<rparr> ''main'' ''feature'' None initialState)) = False"
proof -
  let ?target = "\<lparr>rt_owner = ''acme'', rt_repo = ''example''\<rparr>"
  let ?payload = "\<lparr>ahead_by = Some 2, behind_by = Some 0, total_commits = Some 2, commits = None,
                files = Some [\<lparr>f_sha = None, f_filename = ''src/index.ts'',
                                f_status = ''modified'', f_additions = 5, f_deletions = 1,
                                f_changes = 6, f_patch = Some ''@@ -1,1 +1,1 @@'',
                                f_previous_filename = None\<rparr>]\<rparr>"
  have fetched: "fetchCompare compareRemote (requests initialState)
      (CompareRequest ?target ''main'' ''feature'') = Body ?payload"
    by (simp add: compareRemote_def)
  have base: "''main'' \<noteq> []" and head: "''feature'' \<noteq> []"
    by simp_all
  from compareCommits_patches [OF base head fetched, where includePatches = "Some True"]
    compareCommits_patches [OF base head fetched, where includePatches = "Some False"]
    compareCommits_patches [OF base head fetched, where includePatches = None]
  show ?thesis
    by auto
qed

subsection \<open>Limits\<close>

lemma prepareItems_length:
  "prepareItems R W target context found fileCache prepared s = (Inr result, s')
     \<Longrightarrow> length result = length prepared + length found"
proof (induction found arbitrary: fileCache prepared s)
  case Nil
  then show ?case by simp
next
  case (Cons item rest)
  from Cons.prems show ?case
    by (auto simp: Let_def split: if_splits prod.splits sum.splits error.splits dest!: Cons.IH)
qed

lemma length_slice_limit: "length (slice xs from (from + enat n)) \<le> n"
  by (cases "from") (simp_all add: slice_def)

lemma normalizeLimit_le: "normalizeLimit requested fallback mx \<le> max fallback mx"
  by (cases "(requested, fallback, mx)" rule: normalizeLimit.cases) auto

text \<open>
  Claim C10. With the cap 100, \<^verbatim>\<open>normalizeLimit\<close> gives \<open>min (floor limit) 100\<close> for a
  positive limit (100 for \<^verbatim>\<open>Infinity\<close>) and the fallback for a missing, \<^verbatim>\<open>NaN\<close>, zero or
  negative limit. \<^verbatim>\<open>searchRepositories\<close> and \<^verbatim>\<open>searchCode\<close> use it with fallback 30,
  \<^verbatim>\<open>searchCommits\<close> with fallback 50, and whatever any of the three returns has at most
  that many items, hence at most 100.
\<close>

theorem limits_capped:
  "normalizeLimit requested fallback 100
     = (case requested of
          None \<Rightarrow> fallback
        | Some NaN \<Rightarrow> fallback
        | Some NegInfinity \<Rightarrow> fallback
        | Some PosInfinity \<Rightarrow> 100
        | Some (Finite q) \<Rightarrow> if 0 < q then min (nat \<lfloor>q\<rfloor>) 100 else fallback)
   \<and> (searchRepositories R W params s = Some (Inr repositories, afterRepos)
        \<longrightarrow> length repositories \<le> normalizeLimit (sp_limit params) 30 100
          \<and> length repositories \<le> 100)
   \<and> (searchCode R W target codeOptions s = Some (Inr hits, afterCode)
        \<longrightarrow> length hits \<le> normalizeLimit (cs_limit codeOptions) 30 100 \<and> length hits \<le> 100)
   \<and> (searchCommits W target commitOptions s = Some (Inr found, afterCommits)
        \<longrightarrow> length found \<le> normalizeLimit (co_limit commitOptions) 50 100 \<and> length found \<le> 100)"
proof -
  have cap: "normalizeLimit l 30 100 \<le> 100" "normalizeLimit l 50 100 \<le> 100" for l
    using normalizeLimit_le [of l 30 100] normalizeLimit_le [of l 50 100] by simp_all
  have effective: "normalizeLimit requested fallback 100
     = (case requested of
          None \<Rightarrow> fallback
        | Some NaN \<Rightarrow> fallback
        | Some NegInfinity \<Rightarrow> fallback
        | Some PosInfinity \<Rightarrow> 100
        | Some (Finite q) \<Rightarrow> if 0 < q then min (nat \<lfloor>q\<rfloor>) 100 else fallback)"
    by (cases "(requested, fallback, 100 :: nat)" rule: normalizeLimit.cases) auto
  have repos: "length repositories \<le> normalizeLimit (sp_limit params) 30 100"
    if "searchRepositories R W params s = Some (Inr repositories, afterRepos)"
    using that
    by (auto simp: searchRepositories_def Let_def length_slice_limit
             split: option.splits sum.splits prod.splits)
  have code: "length hits \<le> normalizeLimit (cs_limit codeOptions) 30 100"
    if "searchCode R W target codeOptions s = Some (Inr hits, afterCode)"
    using that
    by (auto simp: searchCode_def Let_def length_slice_limit
             split: option.splits sum.splits prod.splits if_splits
             dest!: prepareItems_length)
  have commit: "length found \<le> normalizeLimit (co_limit commitOptions) 50 100"
    if "searchCommits W target commitOptions s = Some (Inr found, afterCommits)"
    using that
    by (auto simp: searchCommits_def Let_def length_slice_limit
             split: option.splits sum.splits prod.splits)
  from effective repos code commit cap show ?thesis
    by (meson order_trans)
qed


lemma returned_parts:
  assumes "map_option (\<lambda>r. map_sum id length (fst r)) run = Some (Inr n)"
  obtains xs s' where "run = Some (Inr xs, s')" and "length xs = n"
proof -
  from assms obtain r where r: "run = Some r" and m: "map_sum id length (fst r) = Inr n"
    by (cases run) auto
  from m obtain xs where "fst r = Inr xs" and "length xs = n"
    by (cases "fst r") auto
  with r that [of xs "snd r"] show ?thesis
    by (cases r) auto
qed

text \<open>A commit search asked for 1000 results on a remote that fills every page returns
  100; a code search asked for 5 returns the one hit there is; a repository search asked
  for 2 of three returns 2.\<close>

theorem limits_capped_witness:
  "normalizeLimit (Some (Finite 1000)) 50 100 = 100
   \<and> normalizeLimit (Some (Finite (5 / 2))) 30 100 = 2
   \<and> normalizeLimit (Some (Finite 0)) 30 100 = 30
   \<and> normalizeLimit (Some NaN) 30 100 = 30
   \<and> normalizeLimit None 50 100 = 50
   \<and> map_option (\<lambda>r. map_sum id length (fst r))
        (searchCommits searchRemote \<lparr>rt_owner = ''acme'', rt_repo = ''example''\<rparr>
           \<lparr>co_query = Some ''bug'', co_author = None, co_path = None, co_since = None,
            co_until = None, co_limit = Some (Finite 1000), co_offset = None\<rparr> initialState)
       = Some (Inr 100)
   \<and> map_option (\<lambda>r. map_sum id length (fst r))
        (searchCode exampleRuntime searchRemote \<lparr>rt_owner = ''acme'', rt_repo = ''example''\<rparr>
           \<lparr>cs_pattern = ''greet'', cs_path = None, cs_limit = Some (Finite 5), cs_offset = None,
            cs_context = None\<rparr> initialState)
       = Some (Inr 1)
   \<and> map_option (\<lambda>r. map_sum id length (fst r))
        (searchRepositories exampleRuntime orderingRemote
           \<lparr>sp_pattern = None, sp_organization = None, sp_language = None,
            sp_limit = Some (Finite 2), sp_offset = Some (Finite 1)\<rparr> initialState)
       = Some (Inr 2)"
proof -
  let ?target = "\<lparr>rt_owner = ''acme'', rt_repo = ''example''\<rparr>"
  let ?commitOptions = "\<lparr>co_query = Some ''bug'', co_author = None, co_path = None, co_since = None,
            co_until = None, co_limit = Some (Finite 1000), co_offset = None\<rparr>"
  let ?codeOptions = "\<lparr>cs_pattern = ''greet'', cs_path = None, cs_limit = Some (Finite 5),
            cs_offset = None, cs_context = None\<rparr>"
  let ?params = "\<lparr>sp_pattern = None, sp_organization = None, sp_language = None,
            sp_limit = Some (Finite 2), sp_offset = Some (Finite 1)\<rparr>"
  have commitRun: "map_option (\<lambda>r. map_sum id length (fst r))
        (searchCommits searchRemote ?target ?commitOptions initialState) = Some (Inr 100)"
    by code_simp
  have codeRun: "map_option (\<lambda>r. map_sum id length (fst r))
        (searchCode exampleRuntime searchRemote ?target ?codeOptions initialState) = Some (Inr 1)"
    by code_simp
  have repoRun: "map_option (\<lambda>r. map_sum id length (fst r))
        (searchRepositories exampleRuntime orderingRemote ?params initialState) = Some (Inr 2)"
    by (simp add: orderingRemote_run)
  have half: "\<lfloor>5 / 2 :: rat\<rfloor> = 2"
    by (simp add: floor_eq_iff)
  from commitRun obtain found s3 where
    found: "searchCommits searchRemote ?target ?commitOptions initialState = Some (Inr found, s3)"
    by (rule returned_parts)
  from codeRun obtain hits s2 where
    hits: "searchCode exampleRuntime searchRemote ?target ?codeOptions initialState = Some (Inr hits, s2)"
    by (rule returned_parts)
  from repoRun obtain repositories s1 where
    repositories: "searchRepositories exampleRuntime orderingRemote ?params initialState
       = Some (Inr repositories, s1)"
    by (rule returned_parts)
  from limits_capped [where R = exampleRuntime and W = searchRemote and target = ?target
      and s = initialState and commitOptions = ?commitOptions and found = found and afterCommits = s3
      and codeOptions = ?codeOptions and hits = hits and afterCode = s2
      and requested = "Some (Finite 1000)" and fallback = 50]
    limits_capped [where R = exampleRuntime and W = orderingRemote and s = initialState
      and params = ?params and repositories = repositories and afterRepos = s1
      and requested = "Some (Finite (5 / 2))" and fallback = 30]
    found hits repositories commitRun codeRun repoRun
  show ?thesis
    by (simp add: half)
qed

end
